theory Spec2Isabelle
  imports Complex_Main "HOL-Library.Word"
begin

unbundle bit_operations_syntax

section \<open>Python text primitives\<close>

text \<open>
  A Python \<open>str\<close> is modelled as a \<open>string\<close>, one \<open>char\<close> per code point, so
  \<open>length\<close> is Python's \<open>len\<close>. This covers the code points below 256; the
  predicates and the case mapping below are Python's on that range.
\<close>

definition isspace :: "char \<Rightarrow> bool" where
  "isspace c = (let n = (of_char c :: nat) in
     (9 \<le> n \<and> n \<le> 13) \<or> (28 \<le> n \<and> n \<le> 32) \<or> n = 133 \<or> n = 160)"

definition isupper :: "char \<Rightarrow> bool" where
  "isupper c = (let n = (of_char c :: nat) in
     (65 \<le> n \<and> n \<le> 90) \<or> (192 \<le> n \<and> n \<le> 222 \<and> n \<noteq> 215))"

definition lower_char :: "char \<Rightarrow> char" where
  "lower_char c = (if isupper c then char_of ((of_char c :: nat) + 32) else c)"

definition lower :: "string \<Rightarrow> string" where
  "lower s = map lower_char s"

definition strip :: "string \<Rightarrow> string" where
  "strip s = rev (dropWhile isspace (rev (dropWhile isspace s)))"

text \<open>\<open>s.split()\<close>: the maximal runs of non-whitespace characters, in order.\<close>

fun split_acc :: "string \<Rightarrow> string \<Rightarrow> string list" where
  "split_acc w [] = (if w = [] then [] else [w])"
| "split_acc w (c # cs) =
     (if isspace c then (if w = [] then split_acc [] cs else w # split_acc [] cs)
      else split_acc (w @ [c]) cs)"

definition split_ws :: "string \<Rightarrow> string list" where
  "split_ws s = split_acc [] s"

fun join :: "'a list \<Rightarrow> 'a list list \<Rightarrow> 'a list" where
  "join sep [] = []"
| "join sep [x] = x"
| "join sep (x # y # ys) = x @ sep @ join sep (y # ys)"

text \<open>\<open>s.split(',')\<close>: the pieces between separators; always at least one piece.\<close>

fun split_on :: "char \<Rightarrow> string \<Rightarrow> string list" where
  "split_on d [] = [[]]"
| "split_on d (c # cs) =
     (if c = d then [] # split_on d cs
      else (case split_on d cs of w # ws \<Rightarrow> (c # w) # ws | [] \<Rightarrow> [[c]]))"

definition startswith :: "'a list \<Rightarrow> 'a list \<Rightarrow> bool" where
  "startswith s p = (take (length p) s = p)"

definition endswith :: "'a list \<Rightarrow> 'a list \<Rightarrow> bool" where
  "endswith s p = (length p \<le> length s \<and> drop (length s - length p) s = p)"

text \<open>\<open>sub in s\<close> for strings.\<close>

fun contains :: "'a list \<Rightarrow> 'a list \<Rightarrow> bool" where
  "contains [] sub = (sub = [])"
| "contains (c # cs) sub = (startswith (c # cs) sub \<or> contains cs sub)"

text \<open>The decimal numeral \<open>str(n)\<close> of a non-negative integer.\<close>

function str_nat :: "nat \<Rightarrow> string" where
  "str_nat n = (if n < 10 then [char_of (48 + n)]
                else str_nat (n div 10) @ [char_of (48 + n mod 10)])"
  by pat_completeness auto
termination
  by (relation "measure id") auto

declare str_nat.simps [simp del]

section \<open>Records of the data model\<close>

text \<open>
  \<open>datetime\<close> objects are naive (no time zone), as \<open>datetime.utcnow()\<close> returns them.
\<close>

record datetime =
  year :: nat
  month :: nat
  day :: nat
  hour :: nat
  minute :: nat
  second :: nat
  microsecond :: nat

text \<open>\<open>fetchers/base.py\<close>: the dataclass \<open>PaperMetadata\<close>.\<close>

record PaperMetadata =
  title :: string
  authors :: "string list"
  abstract :: string
  url :: string
  source :: string
  doi :: "string option"
  arxiv_id :: "string option"
  published_at :: "datetime option"
  categories :: "string list option"
  tags :: "string list option"

text \<open>Python truth of an \<open>Optional[str]\<close>: \<open>None\<close> and the empty string are false.\<close>

definition is_set :: "string option \<Rightarrow> bool" where
  "is_set x = (case x of None \<Rightarrow> False | Some s \<Rightarrow> s \<noteq> [])"

section \<open>MD5 (\<open>hashlib.md5(...).hexdigest()\<close>)\<close>

text \<open>\<open>str.encode()\<close>: UTF-8, here for code points below 256.\<close>

definition encode_char :: "char \<Rightarrow> 8 word list" where
  "encode_char c = (let n = (of_char c :: nat) in
     if n < 128 then [of_nat n] else [of_nat (192 + n div 64), of_nat (128 + n mod 64)])"

definition encode :: "string \<Rightarrow> 8 word list" where
  "encode s = concat (map encode_char s)"

definition md5_K :: "32 word list" where
  "md5_K = [
   0xd76aa478, 0xe8c7b756, 0x242070db, 0xc1bdceee,
   0xf57c0faf, 0x4787c62a, 0xa8304613, 0xfd469501,
   0x698098d8, 0x8b44f7af, 0xffff5bb1, 0x895cd7be,
   0x6b901122, 0xfd987193, 0xa679438e, 0x49b40821,
   0xf61e2562, 0xc040b340, 0x265e5a51, 0xe9b6c7aa,
   0xd62f105d, 0x02441453, 0xd8a1e681, 0xe7d3fbc8,
   0x21e1cde6, 0xc33707d6, 0xf4d50d87, 0x455a14ed,
   0xa9e3e905, 0xfcefa3f8, 0x676f02d9, 0x8d2a4c8a,
   0xfffa3942, 0x8771f681, 0x6d9d6122, 0xfde5380c,
   0xa4beea44, 0x4bdecfa9, 0xf6bb4b60, 0xbebfbc70,
   0x289b7ec6, 0xeaa127fa, 0xd4ef3085, 0x04881d05,
   0xd9d4d039, 0xe6db99e5, 0x1fa27cf8, 0xc4ac5665,
   0xf4292244, 0x432aff97, 0xab9423a7, 0xfc93a039,
   0x655b59c3, 0x8f0ccc92, 0xffeff47d, 0x85845dd1,
   0x6fa87e4f, 0xfe2ce6e0, 0xa3014314, 0x4e0811a1,
   0xf7537e82, 0xbd3af235, 0x2ad7d2bb, 0xeb86d391]"

definition md5_s :: "nat list" where
  "md5_s = [7, 12, 17, 22, 7, 12, 17, 22, 7, 12, 17, 22, 7, 12, 17, 22,
            5, 9, 14, 20, 5, 9, 14, 20, 5, 9, 14, 20, 5, 9, 14, 20,
            4, 11, 16, 23, 4, 11, 16, 23, 4, 11, 16, 23, 4, 11, 16, 23,
            6, 10, 15, 21, 6, 10, 15, 21, 6, 10, 15, 21, 6, 10, 15, 21]"

type_synonym md5_state = "32 word \<times> 32 word \<times> 32 word \<times> 32 word"

definition le_word :: "8 word list \<Rightarrow> 32 word" where
  "le_word bs = foldr (\<lambda>b w. ucast b + push_bit 8 w) bs 0"

definition le_bytes :: "nat \<Rightarrow> nat \<Rightarrow> 8 word list" where
  "le_bytes k n = map (\<lambda>i. of_nat (n div 256 ^ i)) [0..<k]"

definition md5_pad :: "8 word list \<Rightarrow> 8 word list" where
  "md5_pad msg = msg @ [0x80] @ replicate ((119 - length msg mod 64) mod 64) 0
                 @ le_bytes 8 (8 * length msg)"

function chunks :: "nat \<Rightarrow> 'a list \<Rightarrow> 'a list list" where
  "chunks n xs = (if n = 0 \<or> xs = [] then [] else take n xs # chunks n (drop n xs))"
  by pat_completeness auto
termination
  by (relation "measure (\<lambda>(n, xs). length xs)") auto

declare chunks.simps [simp del]

definition md5_step :: "32 word list \<Rightarrow> md5_state \<Rightarrow> nat \<Rightarrow> md5_state" where
  "md5_step M st i = (case st of (A, B, C, D) \<Rightarrow>
     (let F = (if i < 16 then (B AND C) OR (NOT B AND D)
               else if i < 32 then (D AND B) OR (NOT D AND C)
               else if i < 48 then B XOR C XOR D
               else C XOR (B OR NOT D));
          g = (if i < 16 then i
               else if i < 32 then (5 * i + 1) mod 16
               else if i < 48 then (3 * i + 5) mod 16
               else (7 * i) mod 16)
      in (D, B + word_rotl (md5_s ! i) (F + A + md5_K ! i + M ! g), B, C)))"

definition md5_block :: "md5_state \<Rightarrow> 8 word list \<Rightarrow> md5_state" where
  "md5_block st blk = (case st of (a0, b0, c0, d0) \<Rightarrow>
     (case foldl (md5_step (map le_word (chunks 4 blk))) st [0..<64] of
        (A, B, C, D) \<Rightarrow> (a0 + A, b0 + B, c0 + C, d0 + D)))"

definition md5_digest :: "8 word list \<Rightarrow> 8 word list" where
  "md5_digest msg =
     (case foldl md5_block (0x67452301, 0xefcdab89, 0x98badcfe, 0x10325476)
             (chunks 64 (md5_pad msg)) of
        (a, b, c, d) \<Rightarrow> concat (map (\<lambda>w. le_bytes 4 (unat w)) [a, b, c, d]))"

definition hexdigit :: "nat \<Rightarrow> char" where
  "hexdigit d = (if d < 10 then char_of (48 + d) else char_of (87 + d))"

definition hex_byte :: "8 word \<Rightarrow> string" where
  "hex_byte b = [hexdigit (unat b div 16), hexdigit (unat b mod 16)]"

definition hexdigest :: "8 word list \<Rightarrow> string" where
  "hexdigest bs = concat (map hex_byte bs)"

definition md5_hex :: "string \<Rightarrow> string" where
  "md5_hex s = hexdigest (md5_digest (encode s))"

section \<open>\<open>fetchers/base.py\<close>: identifiers for deduplication\<close>

definition first_author :: "PaperMetadata \<Rightarrow> string" where
  "first_author p = (case authors p of [] \<Rightarrow> [] | a # _ \<Rightarrow> a)"

definition year_text :: "PaperMetadata \<Rightarrow> string" where
  "year_text p = (case published_at p of None \<Rightarrow> [] | Some d \<Rightarrow> str_nat (year d))"

definition get_identifier :: "PaperMetadata \<Rightarrow> string" where
  "get_identifier p =
     (if is_set (doi p) then the (doi p)
      else if is_set (arxiv_id p) then the (arxiv_id p)
      else md5_hex (title p @ first_author p @ year_text p))"

definition get_identifier_type :: "PaperMetadata \<Rightarrow> string" where
  "get_identifier_type p =
     (if is_set (doi p) then ''doi''
      else if is_set (arxiv_id p) then ''arxiv_id''
      else ''hash'')"

definition is_hex :: "char \<Rightarrow> bool" where
  "is_hex c = (let n = (of_char c :: nat) in (48 \<le> n \<and> n \<le> 57) \<or> (97 \<le> n \<and> n \<le> 102))"

text \<open>Sample records for the identifier rules.\<close>

definition paper_doi :: PaperMetadata where
  "paper_doi = \<lparr> PaperMetadata.title = ''Attention'', authors = [''A. Author''], abstract = ''text'',
     url = ''http://x'', source = ''crossref'', doi = Some ''10.1000/xyz'',
     arxiv_id = Some ''2401.00001'', published_at = None, categories = None, tags = None \<rparr>"

definition paper_arxiv :: PaperMetadata where
  "paper_arxiv = paper_doi \<lparr> PaperMetadata.doi := Some [] \<rparr>"

definition paper_plain :: PaperMetadata where
  "paper_plain = paper_doi \<lparr> PaperMetadata.doi := None, arxiv_id := None \<rparr>"

definition paper_plain' :: PaperMetadata where
  "paper_plain' = paper_plain \<lparr> PaperMetadata.authors := [''A. Author'', ''B. Other''], url := ''http://y'' \<rparr>"

section \<open>\<open>storage/models.py\<close>, \<open>storage/db.py\<close>: the table of seen papers\<close>

text \<open>\<open>SeenPaperCreate\<close>, the validated input of \<open>mark_as_seen\<close>.\<close>

record SeenPaperCreate =
  "identifier" :: string
  identifier_type :: string
  source :: string
  paper_id :: "nat option"

text \<open>A row of the table \<open>seen_papers\<close>; \<open>row_id\<close> is the column \<open>id\<close>.\<close>

record SeenPaper =
  row_id :: nat
  "identifier" :: string
  identifier_type :: string
  source :: string
  paper_id :: "nat option"
  seen_at :: datetime

text \<open>
  The database is the list of committed rows, in insertion order. The column
  \<open>identifier\<close> is declared \<open>unique=True\<close>: a commit that would store a second row with
  an identifier already present fails with \<open>IntegrityError\<close> and stores nothing. The
  foreign key of \<open>paper_id\<close> is not enforced (SQLite, the configured default, does not
  enforce foreign keys unless asked to).
\<close>

type_synonym seen_db = "SeenPaper list"

datatype db_error = IntegrityError

definition next_row_id :: "seen_db \<Rightarrow> nat" where
  "next_row_id db = Suc (foldr max (map row_id db) 0)"

text \<open>\<open>db.add(seen); db.commit(); db.refresh(seen)\<close>: the new database and the stored row.\<close>

definition add_and_commit :: "seen_db \<Rightarrow> datetime \<Rightarrow> SeenPaperCreate \<Rightarrow> db_error + (seen_db \<times> SeenPaper)" where
  "add_and_commit db now seen_data =
     (if list_ex (\<lambda>r. SeenPaper.identifier r = SeenPaperCreate.identifier seen_data) db
      then Inl IntegrityError
      else (let seen = \<lparr> row_id = next_row_id db,
                           identifier = SeenPaperCreate.identifier seen_data,
                           identifier_type = SeenPaperCreate.identifier_type seen_data,
                           source = SeenPaperCreate.source seen_data,
                           paper_id = SeenPaperCreate.paper_id seen_data,
                           seen_at = now \<rparr>
            in Inr (db @ [seen], seen)))"

text \<open>\<open>db.query(SeenPaper).filter(SeenPaper.identifier == identifier).first()\<close>\<close>

definition get_seen_paper :: "seen_db \<Rightarrow> string \<Rightarrow> SeenPaper option" where
  "get_seen_paper db ident = find (\<lambda>r. SeenPaper.identifier r = ident) db"

definition is_paper_seen :: "seen_db \<Rightarrow> string \<Rightarrow> bool" where
  "is_paper_seen db ident = (find (\<lambda>r. SeenPaper.identifier r = ident) db \<noteq> None)"

text \<open>
  \<open>mark_as_seen\<close>: the insert, and on \<open>IntegrityError\<close> the rollback (the database stays
  as it was) and the lookup of the existing row. The result is the database after the call
  and the value returned; \<open>Inl\<close> would be an exception leaving the function.
\<close>

definition mark_as_seen ::
  "seen_db \<Rightarrow> datetime \<Rightarrow> SeenPaperCreate \<Rightarrow> db_error + (seen_db \<times> SeenPaper option)" where
  "mark_as_seen db now seen_data =
     (case add_and_commit db now seen_data of
        Inr (db', seen) \<Rightarrow> Inr (db', Some seen)
      | Inl IntegrityError \<Rightarrow>
          Inr (db, get_seen_paper db (SeenPaperCreate.identifier seen_data)))"

text \<open>The number of rows stored for an identifier, and the uniqueness constraint.\<close>

definition rows_for :: "seen_db \<Rightarrow> string \<Rightarrow> nat" where
  "rows_for db ident = length (filter (\<lambda>r. SeenPaper.identifier r = ident) db)"

definition unique_identifiers :: "seen_db \<Rightarrow> bool" where
  "unique_identifiers db = distinct (map SeenPaper.identifier db)"

text \<open>Sample input.\<close>

definition seen_sample :: SeenPaperCreate where
  "seen_sample = \<lparr> SeenPaperCreate.identifier = ''10.1000/xyz'', identifier_type = ''doi'',
     source = ''crossref'', paper_id = None \<rparr>"

definition seen_clock :: datetime where
  "seen_clock = \<lparr> year = 2024, month = 6, day = 15, hour = 12, minute = 0, second = 0,
     microsecond = 0 \<rparr>"

section \<open>\<open>storage/models.py\<close>: the validated record handed from stage to stage\<close>

record PaperCreate =
  source :: string
  doi :: "string option"
  arxiv_id :: "string option"
  title :: string
  authors :: "string list"
  abstract :: "string option"
  url :: string
  published_at :: "datetime option"
  tags :: "string list option"
  categories :: "string list option"

definition is_news_source :: "string \<Rightarrow> bool" where
  "is_news_source s = (s \<in> {''tech_news'', ''nasa''})"

section \<open>\<open>pipeline/normalize.py\<close>: \<open>DataNormalizer\<close>\<close>

text \<open>\<open>" ".join(s.strip().split())\<close>\<close>

definition collapse :: "string \<Rightarrow> string" where
  "collapse s = join '' '' (split_ws (strip s))"

text \<open>One round of the prefix loop: \<open>if s.startswith(p): s = s[len(p):].strip()\<close>.\<close>

definition remove_prefix :: "string \<Rightarrow> string \<Rightarrow> string" where
  "remove_prefix s p = (if startswith s p then strip (drop (length p) s) else s)"

definition limit_length :: "nat \<Rightarrow> string \<Rightarrow> string" where
  "limit_length n s = (if length s > n then take (n - 3) s @ ''...'' else s)"

definition clean_title :: "string \<Rightarrow> string" where
  "clean_title t =
     (if t = [] then []
      else limit_length 300 (foldl remove_prefix (collapse t) [''Title:'', ''TITLE:'', ''Paper:'']))"

definition clean_abstract :: "string \<Rightarrow> string" where
  "clean_abstract a =
     (if a = [] then []
      else limit_length 2000
             (foldl remove_prefix (collapse a) [''Abstract:'', ''ABSTRACT:'', ''Summary:'']))"

definition normalize_author :: "string \<Rightarrow> string" where
  "normalize_author a =
     limit_length 100
       (foldl remove_prefix a [''Dr.'', ''Prof.'', ''Professor'', ''PhD'', ''Ph.D.''])"

definition normalize_authors :: "string list \<Rightarrow> string list" where
  "normalize_authors as =
     take 20 (map normalize_author (filter (\<lambda>a. a \<noteq> []) (map strip (filter (\<lambda>a. a \<noteq> []) as))))"

text \<open>
  The subject table of \<open>_normalize_crossref_subject\<close>, in the order the dictionary is
  written (Python dictionaries iterate in insertion order).
\<close>

definition subject_mapping :: "(string \<times> string) list" where
  "subject_mapping =
     [(''Computer Science'', ''cs''), (''Mathematics'', ''math''), (''Physics'', ''physics''),
      (''Biology'', ''bio''), (''Medicine'', ''med''), (''Engineering'', ''eng''),
      (''Statistics'', ''stat'')]"

definition normalize_crossref_subject :: "string \<Rightarrow> string" where
  "normalize_crossref_subject subject =
     (case filter (\<lambda>(k, v). contains (lower subject) (lower k)) subject_mapping of
        (k, v) # _ \<Rightarrow> v
      | [] \<Rightarrow> take 50 subject)"

definition normalize_category :: "string \<Rightarrow> string \<Rightarrow> string list" where
  "normalize_category src cat0 =
     (if cat0 = [] then []
      else let cat = strip cat0 in
        if cat = [] then []
        else if src = ''arxiv'' then [cat]
        else if src = ''crossref''
          then (let c = normalize_crossref_subject cat in if c = [] then [] else [c])
        else [take 50 cat])"

definition normalize_categories :: "string list option \<Rightarrow> string \<Rightarrow> string list" where
  "normalize_categories cats src =
     (case cats of None \<Rightarrow> []
      | Some cs \<Rightarrow> take 10 (concat (map (normalize_category src) cs)))"

definition tag_keywords :: "string list" where
  "tag_keywords =
     [''machine learning'', ''deep learning'', ''neural network'', ''artificial intelligence'',
      ''computer vision'', ''natural language processing'', ''nlp'', ''transformers'',
      ''diffusion'', ''gan'', ''generative'', ''classification'', ''regression'',
      ''reinforcement learning'', ''supervised'', ''unsupervised'', ''pytorch'', ''tensorflow'']"

definition category_map :: "(string \<times> string) list" where
  "category_map =
     [(''cs.AI'', ''artificial intelligence''), (''cs.LG'', ''machine learning''),
      (''cs.CV'', ''computer vision''), (''cs.CL'', ''computational linguistics''),
      (''cs.NE'', ''neural networks'')]"

text \<open>
  \<open>_extract_tags\<close> ends with \<open>list(set(tags))[:15]\<close>; the order of a Python set is
  not specified, and \<open>remdups\<close> fixes one order here. No property below reads the tags.
\<close>

definition extract_tags :: "PaperMetadata \<Rightarrow> string list" where
  "extract_tags p =
     (let text = lower (PaperMetadata.title p @ '' '' @ PaperMetadata.abstract p);
          own = (case PaperMetadata.tags p of None \<Rightarrow> [] | Some ts \<Rightarrow> ts);
          found = filter (contains text) tag_keywords;
          cats = (case PaperMetadata.categories p of None \<Rightarrow> [] | Some cs \<Rightarrow> cs);
          from_cats = concat (map (\<lambda>c. if startswith c ''cs.''
                        then (case map_of category_map c of Some t \<Rightarrow> [t] | None \<Rightarrow> [])
                        else []) cats)
      in take 15 (remdups (own @ found @ from_cats)))"

definition normalize_url :: "string \<Rightarrow> string option \<Rightarrow> string option \<Rightarrow> string" where
  "normalize_url u d a =
     (if is_set d then ''https://doi.org/'' @ the d
      else if is_set a then ''https://arxiv.org/abs/'' @ the a
      else if u \<noteq> [] then u
      else ''https://example.com/paper-not-found'')"

text \<open>The fallback abstract of a news item, from the cleaned title.\<close>

definition synthesize_abstract :: "string \<Rightarrow> nat \<Rightarrow> string" where
  "synthesize_abstract t min_required =
     (let synthesized = (if t \<noteq> [] then ''News: '' @ t else ''Technology/space news item'')
      in if length synthesized \<ge> min_required then synthesized
         else if t \<noteq> [] then take (20 + 5) (t @ '' - '' @ t)
         else synthesized)"

text \<open>\<open>_normalize_single_paper\<close>; \<open>None\<close> is the dropped item.\<close>

definition normalize_single_paper :: "PaperMetadata \<Rightarrow> PaperCreate option" where
  "normalize_single_paper p =
     (let t = clean_title (PaperMetadata.title p) in
      if t = [] \<or> length t < 10 then None
      else
        let a = clean_abstract (PaperMetadata.abstract p);
            is_news = is_news_source (PaperMetadata.source p);
            min_required = (if is_news then 20 else 50 :: nat);
            a' = (if a = [] \<or> length a < min_required
                  then (if is_news then Some (synthesize_abstract t min_required) else None)
                  else Some a)
        in case a' of
             None \<Rightarrow> None
           | Some ab \<Rightarrow>
               (let au = normalize_authors (PaperMetadata.authors p) in
                if au = [] then None
                else Some \<lparr> source = PaperMetadata.source p,
                            doi = PaperMetadata.doi p,
                            arxiv_id = PaperMetadata.arxiv_id p,
                            title = t,
                            authors = au,
                            abstract = Some ab,
                            url = normalize_url (PaperMetadata.url p) (PaperMetadata.doi p)
                                    (PaperMetadata.arxiv_id p),
                            published_at = PaperMetadata.published_at p,
                            tags = Some (extract_tags p),
                            categories = Some (normalize_categories
                                    (PaperMetadata.categories p) (PaperMetadata.source p)) \<rparr>))"

definition normalize_papers :: "PaperMetadata list \<Rightarrow> PaperCreate list" where
  "normalize_papers ps = concat (map (\<lambda>p. case normalize_single_paper p of
                                              None \<Rightarrow> [] | Some r \<Rightarrow> [r]) ps)"

text \<open>Sample inputs for the normalizer.\<close>

definition spaced_title :: string where
  "spaced_title = ''Deep Learning'' @ replicate 337 CHR '' ''"

definition news_item :: PaperMetadata where
  "news_item = \<lparr> PaperMetadata.title = ''SpaceX launches new rocket'', authors = [''Reporter''],
     abstract = ''Short'', url = ''http://n'', source = ''tech_news'', doi = None,
     arxiv_id = None, published_at = None, categories = None, tags = None \<rparr>"

definition arxiv_item :: PaperMetadata where
  "arxiv_item = news_item \<lparr> PaperMetadata.source := ''arxiv'' \<rparr>"

section \<open>Configuration dictionary and clock\<close>

text \<open>
  The components receive the configuration as a dictionary and read it with
  \<open>config.get(key, default)\<close>; a field is \<open>None\<close> when the key is absent.
\<close>

record config =
  KEYWORDS_INCLUDE :: "string option"
  KEYWORDS_EXCLUDE :: "string option"
  ARXIV_CATEGORIES :: "string option"
  SUMMARY_MIN_LENGTH :: "int option"
  MAX_PAPERS_PER_DAY :: "int option"
  MIN_NEWS_QUOTA :: "int option"
  SUMMARIZER_MODE :: "string option"
  OPENAI_API_KEY :: "string option"
  ANTHROPIC_API_KEY :: "string option"

definition dict_get :: "'a option \<Rightarrow> 'a \<Rightarrow> 'a" where
  "dict_get v d = (case v of None \<Rightarrow> d | Some x \<Rightarrow> x)"

text \<open>
  Naive \<open>datetime\<close> arithmetic as CPython does it: a date is its proleptic Gregorian
  ordinal, a \<open>datetime\<close> the microseconds since the start of day 0, and
  \<open>(a - b).days\<close> the floor of the difference in days.
\<close>

definition is_leap :: "nat \<Rightarrow> bool" where
  "is_leap y = (y mod 4 = 0 \<and> (y mod 100 \<noteq> 0 \<or> y mod 400 = 0))"

definition days_before_year :: "nat \<Rightarrow> int" where
  "days_before_year y = (let z = int y - 1 in z * 365 + z div 4 - z div 100 + z div 400)"

definition days_before_month :: "nat \<Rightarrow> nat \<Rightarrow> int" where
  "days_before_month y m =
     int ([0, 0, 31, 59, 90, 120, 151, 181, 212, 243, 273, 304, 334] ! m)
     + (if m > 2 \<and> is_leap y then 1 else 0)"

definition days_in_month :: "nat \<Rightarrow> nat \<Rightarrow> nat" where
  "days_in_month y m =
     (if m = 2 \<and> is_leap y then 29
      else [0, 31, 28, 31, 30, 31, 30, 31, 31, 30, 31, 30, 31] ! m)"

text \<open>The values a \<open>datetime\<close> constructor accepts.\<close>

definition valid_datetime :: "datetime \<Rightarrow> bool" where
  "valid_datetime d =
     (1 \<le> year d \<and> year d \<le> 9999 \<and> 1 \<le> month d \<and> month d \<le> 12
      \<and> 1 \<le> day d \<and> day d \<le> days_in_month (year d) (month d)
      \<and> hour d < 24 \<and> minute d < 60 \<and> second d < 60 \<and> microsecond d < 1000000)"

definition toordinal :: "datetime \<Rightarrow> int" where
  "toordinal d = days_before_year (year d) + days_before_month (year d) (month d) + int (day d)"

definition day_us :: int where
  "day_us = 86400 * 1000000"

definition to_us :: "datetime \<Rightarrow> int" where
  "to_us d = toordinal d * day_us
     + ((int (hour d) * 60 + int (minute d)) * 60 + int (second d)) * 1000000
     + int (microsecond d)"

definition timedelta_days :: "datetime \<Rightarrow> datetime \<Rightarrow> int" where
  "timedelta_days a b = (to_us a - to_us b) div day_us"

section \<open>\<open>pipeline/filter_rank.py\<close>: \<open>ContentFilter\<close>\<close>

definition parse_keywords :: "string \<Rightarrow> string list" where
  "parse_keywords s =
     (if s = [] then []
      else map (\<lambda>kw. lower (strip kw)) (filter (\<lambda>kw. strip kw \<noteq> []) (split_on CHR '','' s)))"

definition include_keywords :: "config \<Rightarrow> string list" where
  "include_keywords cfg = parse_keywords (dict_get (KEYWORDS_INCLUDE cfg) [])"

definition exclude_keywords :: "config \<Rightarrow> string list" where
  "exclude_keywords cfg = parse_keywords (dict_get (KEYWORDS_EXCLUDE cfg) [])"

definition min_abstract_length :: "config \<Rightarrow> int" where
  "min_abstract_length cfg = dict_get (SUMMARY_MIN_LENGTH cfg) 50"

text \<open>\<open>f"{paper.title} {paper.abstract}".lower()\<close>; a missing abstract prints as \<open>None\<close>.\<close>

definition paper_text :: "PaperCreate \<Rightarrow> string" where
  "paper_text p = lower (title p @ '' '' @ (case abstract p of None \<Rightarrow> ''None'' | Some a \<Rightarrow> a))"

text \<open>
  The spam patterns, each as the literals it matches: all but two are plain text,
  \<open>www\.\<close> is the literal \<open>www.\<close>, and \<open>http[s]?://\<close> is \<open>http://\<close> or \<open>https://\<close>.
  \<open>re.search\<close> of such a pattern succeeds when one of its literals occurs in the text.
\<close>

definition spam_patterns :: "string list list" where
  "spam_patterns =
     [[''buy now''], [''click here''], [''visit our website''],
      [''special offer''], [''limited time''], [''act now''],
      [''www.''], [''http://'', ''https://''], [''contact us''],
      [''advertisement''], [''promotional'']]"

definition re_search_literals :: "string list \<Rightarrow> string \<Rightarrow> bool" where
  "re_search_literals pattern text = list_ex (contains text) pattern"

definition is_spam :: "PaperCreate \<Rightarrow> bool" where
  "is_spam p =
     (if list_ex (\<lambda>pattern. re_search_literals pattern (paper_text p)) spam_patterns then True
      else if length (title p) > 10
              \<and> 2 * length (filter isupper (title p)) > length (title p) then True
      else False)"

definition passes_quality_check :: "config \<Rightarrow> PaperCreate \<Rightarrow> bool" where
  "passes_quality_check cfg p =
     (if title p = [] \<or> length (title p) < 10 then False
      else if (case abstract p of None \<Rightarrow> True
               | Some a \<Rightarrow> a = [] \<or> int (length a) < min_abstract_length cfg) then False
      else if authors p = [] then False
      else if is_spam p then False
      else True)"

definition passes_keyword_filter :: "config \<Rightarrow> PaperCreate \<Rightarrow> bool" where
  "passes_keyword_filter cfg p =
     (let text = paper_text p in
      if list_ex (contains text) (exclude_keywords cfg) then False
      else if include_keywords cfg \<noteq> [] then list_ex (contains text) (include_keywords cfg)
      else True)"

definition passes_category_filter :: "config \<Rightarrow> PaperCreate \<Rightarrow> bool" where
  "passes_category_filter cfg p =
     (if is_news_source (source p) then True
      else let allowed = parse_keywords (dict_get (ARXIV_CATEGORIES cfg) []) in
        if allowed = [] then True
        else (case categories p of
                None \<Rightarrow> True
              | Some cs \<Rightarrow> if cs = [] then True
                           else list_ex (\<lambda>c. lower c \<in> set (map lower allowed)) cs))"

definition passes_date_filter :: "datetime \<Rightarrow> PaperCreate \<Rightarrow> bool" where
  "passes_date_filter now p =
     (case published_at p of
        None \<Rightarrow> True
      | Some d \<Rightarrow> if to_us d < to_us now - 30 * day_us then False else True)"

definition should_include_paper :: "config \<Rightarrow> datetime \<Rightarrow> PaperCreate \<Rightarrow> bool" where
  "should_include_paper cfg now p =
     (if \<not> passes_quality_check cfg p then False
      else if \<not> passes_keyword_filter cfg p then False
      else if \<not> passes_category_filter cfg p then False
      else if \<not> passes_date_filter now p then False
      else True)"

definition filter_papers :: "config \<Rightarrow> datetime \<Rightarrow> PaperCreate list \<Rightarrow> PaperCreate list" where
  "filter_papers cfg now ps = filter (should_include_paper cfg now) ps"

text \<open>
  The dictionary \<open>Config._load_config\<close> builds when no environment variable is set, and a
  variant with \<open>SUMMARY_MIN_LENGTH=20\<close>.
\<close>

definition default_config :: config where
  "default_config = \<lparr>
     KEYWORDS_INCLUDE = Some ''LLM,diffusion,machine learning,AI,deep learning,neural network'',
     KEYWORDS_EXCLUDE = Some ''survey,review only,obsolete'',
     ARXIV_CATEGORIES = Some ''cs.AI,cs.CL,cs.LG,cs.CV,stat.ML'',
     SUMMARY_MIN_LENGTH = Some 150,
     MAX_PAPERS_PER_DAY = Some 5,
     MIN_NEWS_QUOTA = None,
     SUMMARIZER_MODE = Some ''rule_based'',
     OPENAI_API_KEY = None,
     ANTHROPIC_API_KEY = None \<rparr>"

definition short_min_config :: config where
  "short_min_config = default_config \<lparr> SUMMARY_MIN_LENGTH := Some 20 \<rparr>"

definition brief_news_item :: PaperMetadata where
  "brief_news_item = news_item \<lparr> PaperMetadata.title := ''Rocket launch'' \<rparr>"

text \<open>Sample records for the content filter.\<close>

definition survey_paper :: PaperCreate where
  "survey_paper = \<lparr> source = ''arxiv'', doi = None, arxiv_id = Some ''2401.00002'',
     title = ''A survey of machine learning methods'', authors = [''A. Author'', ''B. Other''],
     abstract = Some ''We review recent machine learning methods and compare their results.'',
     url = ''https://arxiv.org/abs/2401.00002'', published_at = None, tags = None,
     categories = Some [''cs.LG''] \<rparr>"

definition short_title_paper :: PaperCreate where
  "short_title_paper = survey_paper \<lparr> title := ''Short'' \<rparr>"

definition spam_paper :: PaperCreate where
  "spam_paper = survey_paper \<lparr> title := ''Great deals: click here today'' \<rparr>"

definition quantum_paper :: PaperCreate where
  "quantum_paper = survey_paper \<lparr> title := ''Quantum computing advances'',
     abstract := Some ''New error correction results for superconducting qubits.'' \<rparr>"

definition no_include_config :: config where
  "no_include_config = default_config \<lparr> KEYWORDS_INCLUDE := None \<rparr>"

section \<open>\<open>pipeline/filter_rank.py\<close>: \<open>PaperRanker\<close>\<close>

text \<open>
  Scores are Python floats; they are modelled as exact rationals. The properties proved
  below compare the constants the code returns and use the final clamp, so they do not
  depend on rounding.
\<close>

text \<open>\<open>s.count(sub)\<close>: the number of non-overlapping occurrences, scanning from the left.\<close>

function count_sub :: "string \<Rightarrow> string \<Rightarrow> nat" where
  "count_sub s sub =
     (if sub = [] then length s + 1
      else if s = [] then 0
      else if startswith s sub then 1 + count_sub (drop (length sub) s) sub
      else count_sub (tl s) sub)"
  by pat_completeness auto
termination
  by (relation "measure (\<lambda>(s, sub). length s)") auto

declare count_sub.simps [simp del]

definition keyword_score :: "string list \<Rightarrow> string \<Rightarrow> rat" where
  "keyword_score kws text =
     (if kws = [] then 5 / 10
      else sum_list (map (\<lambda>kw.
             (let count = count_sub text kw in
              if count > 0
              then min 1 (of_nat count * (2 / 10) + of_nat (count_sub (take 200 text) kw) * (3 / 10))
              else 0)) kws) / of_nat (length kws))"

definition recency_score :: "datetime \<Rightarrow> datetime option \<Rightarrow> rat" where
  "recency_score now pub =
     (case pub of
        None \<Rightarrow> 3 / 10
      | Some d \<Rightarrow>
          (let days_old = timedelta_days now d in
           if days_old \<le> 1 then 1
           else if days_old \<le> 7 then 8 / 10
           else if days_old \<le> 30 then 6 / 10
           else if days_old \<le> 90 then 4 / 10
           else 2 / 10))"

definition quality_score :: "PaperCreate \<Rightarrow> rat" where
  "quality_score p =
     (let s0 = 5 / 10;
          s1 = (if (case abstract p of None \<Rightarrow> False | Some a \<Rightarrow> length a > 200)
                then s0 + 2 / 10 else s0);
          s2 = (if length (authors p) > 1
                then s1 + min (2 / 10) (of_nat (length (authors p)) * (5 / 100)) else s1);
          s3 = (if is_set (doi p) then s2 + 1 / 10 else s2)
      in min 1 s3)"

definition source_weights :: "(string \<times> rat) list" where
  "source_weights =
     [(''arxiv'', 8 / 10), (''crossref'', 6 / 10), (''biorxiv'', 7 / 10), (''medRxiv'', 7 / 10)]"

definition source_score :: "string \<Rightarrow> rat" where
  "source_score src = dict_get (map_of source_weights (lower src)) (5 / 10)"

definition preferred_categories :: "string list" where
  "preferred_categories = [''cs.ai'', ''cs.lg'', ''cs.cl'', ''cs.cv'', ''stat.ml'']"

definition category_score :: "string list option \<Rightarrow> rat" where
  "category_score cats =
     (case cats of
        None \<Rightarrow> 5 / 10
      | Some cs \<Rightarrow>
          if cs = [] then 5 / 10
          else if list_ex (\<lambda>c. lower c \<in> set preferred_categories) cs then 1
          else 6 / 10)"

definition boost_terms :: "string list" where
  "boost_terms =
     [''llm'', ''large language model'', ''gpt'', ''artificial intelligence'', ''machine learning'']"

definition calculate_relevance_score :: "config \<Rightarrow> datetime \<Rightarrow> PaperCreate \<Rightarrow> rat" where
  "calculate_relevance_score cfg now p =
     (let text = paper_text p;
          base = source_score (source p);
          base_source_score = (if is_news_source (source p) then min 1 (base + 15 / 100) else base);
          score = keyword_score (include_keywords cfg) text * (4 / 10)
                  + recency_score now (published_at p) * (2 / 10)
                  + quality_score p * (2 / 10)
                  + base_source_score * (1 / 10)
                  + category_score (categories p) * (1 / 10);
          tags_l = map lower (dict_get (tags p) []);
          score' = (if list_ex (\<lambda>tag. list_ex (\<lambda>term. contains tag term) boost_terms) tags_l
                    then min 1 (score + 1 / 10) else score)
      in max 0 (min 1 score'))"

text \<open>
  \<open>rank_papers\<close>: score every paper, then \<open>sort(key=score, reverse=True)\<close>. Python's sort is
  stable, also with \<open>reverse=True\<close>; so is \<open>sort_key\<close> on the negated score.
\<close>

definition sort_by_score :: "('a \<times> rat) list \<Rightarrow> ('a \<times> rat) list" where
  "sort_by_score xs = sort_key (\<lambda>x. - snd x) xs"

definition rank_papers :: "config \<Rightarrow> datetime \<Rightarrow> PaperCreate list \<Rightarrow> (PaperCreate \<times> rat) list" where
  "rank_papers cfg now ps = sort_by_score (map (\<lambda>p. (p, calculate_relevance_score cfg now p)) ps)"

section \<open>\<open>pipeline/filter_rank.py\<close>: \<open>FilterRankPipeline\<close>\<close>

text \<open>The slice \<open>xs[:n]\<close> for an integer \<open>n\<close> of either sign.\<close>

definition py_take :: "int \<Rightarrow> 'a list \<Rightarrow> 'a list" where
  "py_take n xs = (if 0 \<le> n then take (nat n) xs else take (length xs - nat (- n)) xs)"

text \<open>
  The loop that gathers the extra news items: it appends a news item that is not selected
  yet and stops as soon as \<open>needed\<close> items are gathered.
\<close>

fun collect_extra ::
  "int \<Rightarrow> PaperCreate list \<Rightarrow> PaperCreate list \<Rightarrow> (PaperCreate \<times> rat) list
   \<Rightarrow> (PaperCreate \<times> rat) list \<Rightarrow> (PaperCreate \<times> rat) list" where
  "collect_extra needed current_news top_papers extra [] = extra"
| "collect_extra needed current_news top_papers extra (ps # rest) =
     (let extra' = (if fst ps \<notin> set current_news \<and> fst ps \<notin> set top_papers
                    then extra @ [ps] else extra)
      in if int (length extra') \<ge> needed then extra'
         else collect_extra needed current_news top_papers extra' rest)"

text \<open>Step 3 of \<open>process_papers\<close>: the top \<open>max_papers\<close> of the ranking, then the quota pass.\<close>

definition select_top :: "int \<Rightarrow> int \<Rightarrow> (PaperCreate \<times> rat) list \<Rightarrow> (PaperCreate \<times> rat) list" where
  "select_top max_papers min_news_quota ranked_papers =
     (let top_papers_scored = py_take max_papers ranked_papers;
          news_items = filter (\<lambda>ps. is_news_source (source (fst ps))) ranked_papers;
          current_news = filter (\<lambda>p. is_news_source (source p)) (map fst top_papers_scored)
      in if int (length current_news) < min_news_quota \<and> news_items \<noteq> []
         then (let needed = min_news_quota - int (length current_news);
                   extra = collect_extra needed current_news (map fst top_papers_scored) []
                             news_items
               in if extra \<noteq> []
                  then py_take max_papers (sort_by_score (top_papers_scored @ extra))
                  else top_papers_scored)
         else top_papers_scored)"

definition max_papers :: "config \<Rightarrow> int" where
  "max_papers cfg = dict_get (MAX_PAPERS_PER_DAY cfg) 5"

definition min_news_quota :: "config \<Rightarrow> int" where
  "min_news_quota cfg = dict_get (MIN_NEWS_QUOTA cfg) 2"

definition process_papers :: "config \<Rightarrow> datetime \<Rightarrow> PaperCreate list \<Rightarrow> PaperCreate list" where
  "process_papers cfg now papers =
     (let filtered_papers = filter_papers cfg now papers in
      if filtered_papers = [] then []
      else map fst (select_top (max_papers cfg) (min_news_quota cfg)
                      (rank_papers cfg now filtered_papers)))"

definition news_count :: "PaperCreate list \<Rightarrow> nat" where
  "news_count ps = length (filter (\<lambda>p. is_news_source (source p)) ps)"

text \<open>Sample clock readings and publication dates.\<close>

definition clock_2024 :: datetime where
  "clock_2024 = \<lparr> year = 2024, month = 6, day = 15, hour = 12, minute = 0, second = 0,
     microsecond = 0 \<rparr>"

definition date_recent :: datetime where
  "date_recent = clock_2024 \<lparr> hour := 0 \<rparr>"

definition date_2020 :: datetime where
  "date_2020 = \<lparr> year = 2020, month = 3, day = 10, hour = 9, minute = 30, second = 0,
     microsecond = 0 \<rparr>"

definition jan_3_2021 :: datetime where
  "jan_3_2021 = \<lparr> year = 2021, month = 1, day = 3, hour = 0, minute = 0, second = 0,
     microsecond = 0 \<rparr>"

text \<open>
  A pool for the quota pass: the configuration of the test suite (two papers a day, quota at
  its default of 2), two arXiv papers and two news items, all passing the filter.
\<close>

definition quota_config :: config where
  "quota_config = \<lparr>
     KEYWORDS_INCLUDE = Some ''machine learning,AI'',
     KEYWORDS_EXCLUDE = Some ''spam'',
     ARXIV_CATEGORIES = None,
     SUMMARY_MIN_LENGTH = Some 50,
     MAX_PAPERS_PER_DAY = Some 2,
     MIN_NEWS_QUOTA = None,
     SUMMARIZER_MODE = Some ''rule_based'',
     OPENAI_API_KEY = None,
     ANTHROPIC_API_KEY = None \<rparr>"

definition arxiv_one :: PaperCreate where
  "arxiv_one = \<lparr> source = ''arxiv'', doi = None, arxiv_id = Some ''2401.00001'',
     title = ''Scaling machine learning models'', authors = [''A. Author'', ''B. Other''],
     abstract = Some ''We study how machine learning models scale with data and compute budgets.'',
     url = ''https://arxiv.org/abs/2401.00001'', published_at = None, tags = None,
     categories = Some [''cs.LG''] \<rparr>"

definition arxiv_two :: PaperCreate where
  "arxiv_two = arxiv_one \<lparr> arxiv_id := Some ''2401.00002'',
     title := ''Robust machine learning benchmarks'',
     url := ''https://arxiv.org/abs/2401.00002'' \<rparr>"

definition news_one :: PaperCreate where
  "news_one = \<lparr> source = ''tech_news'', doi = None, arxiv_id = None,
     title = ''Chip maker bets on machine learning'', authors = [''Reporter''],
     abstract = Some ''A chip maker announced new hardware for machine learning workloads today.'',
     url = ''https://news.example/chips'', published_at = None, tags = None,
     categories = None \<rparr>"

definition news_two :: PaperCreate where
  "news_two = news_one \<lparr> source := ''nasa'',
     title := ''Rover uses machine learning to navigate'',
     url := ''https://news.example/rover'' \<rparr>"

definition quota_pool :: "PaperCreate list" where
  "quota_pool = [news_one, arxiv_one, news_two, arxiv_two]"

section \<open>\<open>config.py\<close>: list-valued settings\<close>

text \<open>
  \<open>Config._get_list(key)\<close> reads \<open>os.getenv(key, '')\<close>; the argument \<open>env\<close> is the value of
  the environment variable, \<open>None\<close> when it is not set. \<open>get_keywords_include\<close> and
  \<open>get_keywords_exclude\<close> are this function at their two keys.
\<close>

definition get_list :: "string option \<Rightarrow> string list" where
  "get_list env =
     (let v = dict_get env [] in
      if v = [] then []
      else map strip (filter (\<lambda>item. strip item \<noteq> []) (split_on CHR '','' v)))"

definition get_keywords_include :: "string option \<Rightarrow> string list" where
  "get_keywords_include env = get_list env"

definition get_keywords_exclude :: "string option \<Rightarrow> string list" where
  "get_keywords_exclude env = get_list env"

section \<open>Identifier derivation\<close>

lemma length_hexdigest: "length (hexdigest bs) = 2 * length bs"
  by (induction bs) (simp_all add: hexdigest_def hex_byte_def)

lemma length_le_bytes: "length (le_bytes k n) = k"
  by (simp add: le_bytes_def)

lemma length_md5_digest: "length (md5_digest msg) = 16"
  by (simp add: md5_digest_def length_le_bytes split: prod.splits)

lemma is_hex_hexdigit: "d < 16 \<Longrightarrow> is_hex (hexdigit d)"
  by (simp add: is_hex_def hexdigit_def)

lemma is_hex_hex_byte: "c \<in> set (hex_byte b) \<Longrightarrow> is_hex c"
proof -
  assume c: "c \<in> set (hex_byte b)"
  have "unat b < 256" using unsigned_less [of b] by simp
  then have "unat b div 16 < 16" "unat b mod 16 < 16" by simp_all
  with c show ?thesis by (auto simp: hex_byte_def is_hex_hexdigit)
qed

lemma list_all_is_hex_hexdigest: "list_all is_hex (hexdigest bs)"
  by (induction bs) (auto simp: hexdigest_def list_all_iff is_hex_hex_byte)

lemma md5_hex_shape: "length (md5_hex s) = 32 \<and> list_all is_hex (md5_hex s)"
  by (simp add: md5_hex_def length_hexdigest length_md5_digest list_all_is_hex_hexdigest)

text \<open>
  Claim C3. A record whose DOI is set (not \<open>None\<close>, not empty) is identified by exactly
  that DOI, with kind \<open>doi\<close>; one with no DOI but an arXiv id by that id, with kind
  \<open>arxiv_id\<close>; one with neither by a string of 32 hexadecimal digits, with kind
  \<open>hash\<close>, and two such records with the same title, the same first author and the
  same publication year get the same hash.
\<close>

theorem get_identifier_spec:
  "(is_set (PaperMetadata.doi p) \<longrightarrow>
      Some (get_identifier p) = PaperMetadata.doi p \<and> get_identifier_type p = ''doi'')
   \<and> (\<not> is_set (PaperMetadata.doi p) \<and> is_set (PaperMetadata.arxiv_id p) \<longrightarrow>
      Some (get_identifier p) = PaperMetadata.arxiv_id p \<and> get_identifier_type p = ''arxiv_id'')
   \<and> (\<not> is_set (PaperMetadata.doi p) \<and> \<not> is_set (PaperMetadata.arxiv_id p) \<longrightarrow>
      length (get_identifier p) = 32 \<and> list_all is_hex (get_identifier p)
      \<and> get_identifier_type p = ''hash'')
   \<and> (\<not> is_set (PaperMetadata.doi p) \<and> \<not> is_set (PaperMetadata.arxiv_id p)
      \<and> \<not> is_set (PaperMetadata.doi q) \<and> \<not> is_set (PaperMetadata.arxiv_id q)
      \<and> PaperMetadata.title p = PaperMetadata.title q \<and> first_author p = first_author q
      \<and> map_option year (PaperMetadata.published_at p) = map_option year (PaperMetadata.published_at q) \<longrightarrow>
      get_identifier p = get_identifier q)"
proof -
  have same_year: "year_text p = year_text q"
    if "map_option year (PaperMetadata.published_at p) = map_option year (PaperMetadata.published_at q)"
    using that by (cases "PaperMetadata.published_at p"; cases "PaperMetadata.published_at q") (simp_all add: year_text_def)
  show ?thesis
    by (auto simp: get_identifier_def get_identifier_type_def is_set_def md5_hex_shape same_year
        split: option.splits)
qed

theorem get_identifier_spec_witness:
  "get_identifier paper_doi = ''10.1000/xyz'' \<and> get_identifier_type paper_doi = ''doi''
   \<and> get_identifier paper_arxiv = ''2401.00001''
   \<and> get_identifier_type paper_arxiv = ''arxiv_id''
   \<and> length (get_identifier paper_plain) = 32 \<and> list_all is_hex (get_identifier paper_plain)
   \<and> get_identifier_type paper_plain = ''hash''
   \<and> get_identifier paper_plain = get_identifier paper_plain'"
proof -
  note defs = paper_doi_def paper_arxiv_def paper_plain_def paper_plain'_def is_set_def
    first_author_def
  have a: "get_identifier paper_doi = ''10.1000/xyz'' \<and> get_identifier_type paper_doi = ''doi''"
    using get_identifier_spec [of paper_doi paper_doi] by (simp add: defs)
  have b: "get_identifier paper_arxiv = ''2401.00001''
      \<and> get_identifier_type paper_arxiv = ''arxiv_id''"
    using get_identifier_spec [of paper_arxiv paper_arxiv] by (simp add: defs)
  have c: "length (get_identifier paper_plain) = 32 \<and> list_all is_hex (get_identifier paper_plain)
      \<and> get_identifier_type paper_plain = ''hash''"
    using get_identifier_spec [of paper_plain paper_plain] by (simp add: defs)
  have d: "get_identifier paper_plain = get_identifier paper_plain'"
    using get_identifier_spec [of paper_plain paper_plain'] by (simp add: defs)
  from a b c d show ?thesis by blast
qed

section \<open>Whitespace, prefixes and length limits\<close>

lemma length_strip_le: "length (strip s) \<le> length s"
proof -
  have "length (dropWhile isspace (rev (dropWhile isspace s))) \<le> length (rev (dropWhile isspace s))"
    by (rule length_dropWhile_le)
  also have "\<dots> \<le> length s" by (simp add: length_dropWhile_le)
  finally show ?thesis by (simp add: strip_def)
qed

lemma length_join_split_acc:
  "length (join '' '' (split_acc w s)) \<le> length w + length s"
proof (induction s arbitrary: w)
  case Nil
  then show ?case by simp
next
  case (Cons c cs)
  show ?case
  proof (cases "isspace c")
    case False
    with Cons [of "w @ [c]"] show ?thesis by simp
  next
    case True
    show ?thesis
    proof (cases "split_acc [] cs")
      case Nil
      with True show ?thesis by simp
    next
      case (Cons x xs)
      with True Cons.IH [of "[]"] show ?thesis by (cases "w = []") simp_all
    qed
  qed
qed

lemma length_collapse_le: "length (collapse s) \<le> length s"
proof -
  have "length (collapse s) \<le> length (strip s)"
    using length_join_split_acc [of "[]" "strip s"] by (simp add: collapse_def split_ws_def)
  with length_strip_le [of s] show ?thesis by simp
qed

lemma length_remove_prefix_le: "length (remove_prefix s p) \<le> length s"
proof (cases "startswith s p")
  case True
  have "length (strip (drop (length p) s)) \<le> length (drop (length p) s)"
    by (rule length_strip_le)
  with True show ?thesis by (simp add: remove_prefix_def)
next
  case False
  then show ?thesis by (simp add: remove_prefix_def)
qed

lemma length_foldl_remove_prefix_le: "length (foldl remove_prefix s ps) \<le> length s"
proof (induction ps arbitrary: s)
  case Nil
  then show ?case by simp
next
  case (Cons p ps)
  have "length (foldl remove_prefix (remove_prefix s p) ps) \<le> length (remove_prefix s p)"
    by (rule Cons.IH)
  with length_remove_prefix_le [of s p] show ?case by simp
qed

lemma length_limit_length_le: "3 \<le> n \<Longrightarrow> length (limit_length n s) \<le> length s"
  by (auto simp: limit_length_def)

lemma length_limit_length_bound: "3 \<le> n \<Longrightarrow> length (limit_length n s) \<le> n"
  by (auto simp: limit_length_def)

lemma limit_length_long:
  "n < length s \<Longrightarrow> 3 \<le> n \<Longrightarrow>
   limit_length n s = take (n - 3) s @ ''...'' \<and> length (limit_length n s) = n
   \<and> endswith (limit_length n s) ''...''"
  by (auto simp: limit_length_def endswith_def)

lemma dropWhile_id: "s = [] \<or> \<not> P (hd s) \<Longrightarrow> dropWhile P s = s"
  by (cases s) auto

lemma strip_id: "s = [] \<or> (\<not> isspace (hd s) \<and> \<not> isspace (last s)) \<Longrightarrow> strip s = s"
proof (cases "s = []")
  case True
  then show ?thesis by (simp add: strip_def)
next
  case False
  assume "s = [] \<or> (\<not> isspace (hd s) \<and> \<not> isspace (last s))"
  with False have h: "\<not> isspace (hd s)" and l: "\<not> isspace (last s)" by simp_all
  from h have 1: "dropWhile isspace s = s" by (simp add: dropWhile_id)
  from False l have "\<not> isspace (hd (rev s))" by (simp add: hd_rev)
  then have 2: "dropWhile isspace (rev s) = rev s" by (simp add: dropWhile_id)
  show ?thesis by (simp add: strip_def 1 2)
qed

lemma split_acc_nospace:
  "\<forall>c\<in>set s. \<not> isspace c \<Longrightarrow> split_acc w s = (if w @ s = [] then [] else [w @ s])"
  by (induction s arbitrary: w) auto

lemma collapse_nospace: "\<forall>c\<in>set s. \<not> isspace c \<Longrightarrow> collapse s = s"
proof -
  assume ns: "\<forall>c\<in>set s. \<not> isspace c"
  then have "s = [] \<or> (\<not> isspace (hd s) \<and> \<not> isspace (last s))"
    by (cases "s = []") simp_all
  then have "strip s = s" by (rule strip_id)
  with ns show ?thesis
    by (simp add: collapse_def split_ws_def split_acc_nospace)
qed


lemma length_clean_abstract_le: "length (clean_abstract a) \<le> length a"
proof (cases "a = []")
  case True
  then show ?thesis by (simp add: clean_abstract_def)
next
  case False
  let ?b = "foldl remove_prefix (collapse a) [''Abstract:'', ''ABSTRACT:'', ''Summary:'']"
  have "length (limit_length 2000 ?b) \<le> length ?b" by (rule length_limit_length_le) simp
  also have "\<dots> \<le> length (collapse a)" by (rule length_foldl_remove_prefix_le)
  also have "\<dots> \<le> length a" by (rule length_collapse_le)
  finally show ?thesis using False by (simp add: clean_abstract_def)
qed


lemma split_acc_words:
  "x \<in> set (split_acc w s) \<Longrightarrow> \<forall>c\<in>set w. \<not> isspace c \<Longrightarrow>
   x \<noteq> [] \<and> (\<forall>c\<in>set x. \<not> isspace c)"
proof (induction s arbitrary: w)
  case Nil
  then show ?case by (auto split: if_splits)
next
  case (Cons c cs)
  show ?case
  proof (cases "isspace c")
    case True
    with Cons.prems Cons.IH [of "[]"] show ?thesis
      by (cases "w = []") auto
  next
    case False
    with Cons.prems Cons.IH [of "w @ [c]"] show ?thesis by auto
  qed
qed

lemma join_words_ends:
  "ws \<noteq> [] \<Longrightarrow> \<forall>x\<in>set ws. x \<noteq> [] \<and> (\<forall>c\<in>set x. \<not> isspace c) \<Longrightarrow>
   join '' '' ws \<noteq> [] \<and> \<not> isspace (hd (join '' '' ws)) \<and> \<not> isspace (last (join '' '' ws))"
proof (induction "'' ''" ws rule: join.induct)
  case 1
  then show ?case by simp
next
  case (2 x)
  then show ?case by simp
next
  case (3 x y ys)
  then show ?case by (auto simp: hd_append)
qed

lemma split_acc_leading: "split_acc [] (dropWhile isspace s) = split_acc [] s"
  by (induction s) auto

lemma split_acc_spaces:
  "\<forall>c\<in>set r. isspace c \<Longrightarrow> split_acc w r = (if w = [] then [] else [w])"
  by (induction r arbitrary: w) auto

lemma split_acc_trailing:
  "\<forall>c\<in>set r. isspace c \<Longrightarrow> split_acc w (s @ r) = split_acc w s"
  by (induction s arbitrary: w) (auto simp: split_acc_spaces)

lemma split_ws_strip: "split_ws (strip s) = split_ws s"
proof -
  let ?u = "dropWhile isspace s"
  have u: "?u = rev (dropWhile isspace (rev ?u)) @ rev (takeWhile isspace (rev ?u))"
    by (metis rev_append rev_rev_ident takeWhile_dropWhile_id)
  have sp: "\<forall>c\<in>set (rev (takeWhile isspace (rev ?u))). isspace c"
    by (auto dest: set_takeWhileD)
  have "split_acc [] (strip s) = split_acc [] (rev (dropWhile isspace (rev ?u)) @ rev (takeWhile isspace (rev ?u)))"
    using split_acc_trailing [OF sp] by (simp add: strip_def)
  also have "\<dots> = split_acc [] ?u" using u by simp
  also have "\<dots> = split_acc [] s" by (rule split_acc_leading)
  finally show ?thesis by (simp add: split_ws_def)
qed

lemma collapse_eq: "collapse s = join '' '' (split_ws s)"
  by (simp add: collapse_def split_ws_strip)

lemma strip_collapse: "strip (collapse s) = collapse s"
proof (cases "split_ws s = []")
  case True
  then show ?thesis by (simp add: collapse_eq strip_def)
next
  case False
  have "\<forall>x\<in>set (split_ws s). x \<noteq> [] \<and> (\<forall>c\<in>set x. \<not> isspace c)"
    using split_acc_words [of _ "[]" s] by (simp add: split_ws_def)
  from join_words_ends [OF False this] show ?thesis
    by (simp add: collapse_eq strip_id)
qed

lemma strip_space_Cons: "isspace c \<Longrightarrow> strip (c # s) = strip s"
  by (simp add: strip_def)

lemma split_ws_Title: "split_ws (''Title: '' @ t) = ''Title:'' # split_ws t"
  by (simp add: split_ws_def isspace_def)

lemma collapse_Title:
  "collapse (''Title: '' @ t) = (if collapse t = [] then ''Title:'' else ''Title: '' @ collapse t)"
proof (cases "split_ws t")
  case Nil
  with split_ws_Title [of t] show ?thesis by (simp add: collapse_eq)
next
  case (Cons x xs)
  have "\<forall>x\<in>set (split_ws t). x \<noteq> [] \<and> (\<forall>c\<in>set x. \<not> isspace c)"
    using split_acc_words [of _ "[]" t] by (simp add: split_ws_def)
  with Cons join_words_ends [of "split_ws t"] have "join '' '' (x # xs) \<noteq> []" by simp
  with Cons split_ws_Title [of t] show ?thesis by (simp add: collapse_eq)
qed

lemma remove_prefix_Title:
  "remove_prefix (collapse (''Title: '' @ t)) ''Title:'' = collapse t"
proof (cases "collapse t = []")
  case True
  with collapse_Title [of t] show ?thesis
    by (simp add: remove_prefix_def startswith_def strip_def)
next
  case False
  have "strip ('' '' @ collapse t) = collapse t"
    using strip_space_Cons [of "CHR '' ''" "collapse t"] by (simp add: isspace_def strip_collapse)
  with False collapse_Title [of t] show ?thesis
    by (simp add: remove_prefix_def startswith_def)
qed

lemma clean_title_Title:
  "clean_title (''Title: '' @ t)
     = limit_length 300 (foldl remove_prefix (collapse t) [''TITLE:'', ''Paper:''])"
  using remove_prefix_Title [of t] by (simp add: clean_title_def)

section \<open>Normalization rules\<close>

lemma foldl_remove_prefix_none:
  "\<forall>p\<in>set ps. \<not> startswith s p \<Longrightarrow> foldl remove_prefix s ps = s"
  by (induction ps) (simp_all add: remove_prefix_def)

lemma clean_title_long:
  assumes "collapse t = t" and "300 < length t"
    and "\<not> startswith t ''Title:''" and "\<not> startswith t ''TITLE:''" and "\<not> startswith t ''Paper:''"
  shows "clean_title t = take 297 t @ ''...''"
proof -
  from assms have "foldl remove_prefix (collapse t) [''Title:'', ''TITLE:'', ''Paper:''] = t"
    using foldl_remove_prefix_none [of "[''Title:'', ''TITLE:'', ''Paper:'']" t] by simp
  moreover from assms have "t \<noteq> []" by auto
  ultimately show ?thesis using assms(2) by (simp add: clean_title_def limit_length_def)
qed

lemma clean_abstract_long:
  assumes "collapse a = a" and "2000 < length a"
    and "\<not> startswith a ''Abstract:''" and "\<not> startswith a ''ABSTRACT:''"
    and "\<not> startswith a ''Summary:''"
  shows "clean_abstract a = take 1997 a @ ''...''"
proof -
  from assms have "foldl remove_prefix (collapse a) [''Abstract:'', ''ABSTRACT:'', ''Summary:''] = a"
    using foldl_remove_prefix_none [of "[''Abstract:'', ''ABSTRACT:'', ''Summary:'']" a] by simp
  moreover from assms have "a \<noteq> []" by auto
  ultimately show ?thesis using assms(2) by (simp add: clean_abstract_def limit_length_def)
qed

lemma normalize_short_news:
  assumes "length (PaperMetadata.abstract p) < 20" and "is_news_source (PaperMetadata.source p)"
    and "10 \<le> length (clean_title (PaperMetadata.title p))"
    and "normalize_authors (PaperMetadata.authors p) \<noteq> []"
  shows "\<exists>r. normalize_single_paper p = Some r
           \<and> abstract r = Some (synthesize_abstract (clean_title (PaperMetadata.title p)) 20)
           \<and> title r = clean_title (PaperMetadata.title p)"
proof -
  have "length (clean_abstract (PaperMetadata.abstract p)) < 20"
    using length_clean_abstract_le [of "PaperMetadata.abstract p"] assms(1) by simp
  with assms show ?thesis
    by (auto simp: normalize_single_paper_def Let_def)
qed

lemma normalize_short_other:
  assumes "length (PaperMetadata.abstract p) < 20" and "\<not> is_news_source (PaperMetadata.source p)"
  shows "normalize_single_paper p = None"
proof -
  have "length (clean_abstract (PaperMetadata.abstract p)) < 20"
    using length_clean_abstract_le [of "PaperMetadata.abstract p"] assms(1) by simp
  with assms show ?thesis
    by (auto simp: normalize_single_paper_def Let_def)
qed

lemma spaced_title_clean:
  "length spaced_title = 350 \<and> clean_title spaced_title = ''Deep Learning''"
proof -
  have "split_ws spaced_title = split_ws ''Deep Learning''"
    unfolding spaced_title_def split_ws_def
    by (rule split_acc_trailing) (simp add: isspace_def)
  also have "\<dots> = [''Deep'', ''Learning'']"
    by (simp add: split_ws_def isspace_def)
  finally have "collapse spaced_title = ''Deep Learning''"
    by (simp add: collapse_eq)
  moreover have "spaced_title \<noteq> []" by (simp add: spaced_title_def)
  ultimately show ?thesis
    by (simp add: clean_title_def remove_prefix_def startswith_def limit_length_def spaced_title_def)
qed

text \<open>
  Claim C5, as amended. A 350-character title that is already whitespace-normalised
  (\<open>collapse t = t\<close>) and carries none of the three prefixes is cut to exactly 300
  characters ending in \<open>...\<close>; a 2100-character abstract of that kind to exactly 2000.
  A title written \<open>Title: u\<close> loses that prefix: the result is what the rest of the
  cleaning makes of \<open>u\<close>. An item whose abstract has fewer than 20 characters is kept
  with a synthesized abstract when its source is \<open>tech_news\<close> or \<open>nasa\<close>, provided its
  cleaned title has at least 10 characters and an author survives normalization; from any
  other source (\<open>arxiv\<close> among them) it is dropped.
\<close>

theorem normalizer_rules:
  "(length t = 350 \<and> collapse t = t \<and> \<not> startswith t ''Title:''
      \<and> \<not> startswith t ''TITLE:'' \<and> \<not> startswith t ''Paper:'' \<longrightarrow>
      clean_title t = take 297 t @ ''...'' \<and> length (clean_title t) = 300
      \<and> endswith (clean_title t) ''...'')
   \<and> (length a = 2100 \<and> collapse a = a \<and> \<not> startswith a ''Abstract:''
      \<and> \<not> startswith a ''ABSTRACT:'' \<and> \<not> startswith a ''Summary:'' \<longrightarrow>
      clean_abstract a = take 1997 a @ ''...'' \<and> length (clean_abstract a) = 2000
      \<and> endswith (clean_abstract a) ''...'')
   \<and> clean_title (''Title: '' @ u)
       = limit_length 300 (foldl remove_prefix (collapse u) [''TITLE:'', ''Paper:''])
   \<and> (length (PaperMetadata.abstract p) < 20 \<and> is_news_source (PaperMetadata.source p)
      \<and> 10 \<le> length (clean_title (PaperMetadata.title p))
      \<and> normalize_authors (PaperMetadata.authors p) \<noteq> [] \<longrightarrow>
      (\<exists>r. normalize_single_paper p = Some r
         \<and> abstract r = Some (synthesize_abstract (clean_title (PaperMetadata.title p)) 20)))
   \<and> (length (PaperMetadata.abstract q) < 20 \<and> \<not> is_news_source (PaperMetadata.source q) \<longrightarrow>
      normalize_single_paper q = None)"
proof (intro conjI impI)
  assume h: "length t = 350 \<and> collapse t = t \<and> \<not> startswith t ''Title:''
      \<and> \<not> startswith t ''TITLE:'' \<and> \<not> startswith t ''Paper:''"
  then have eq: "clean_title t = take 297 t @ ''...''"
    using clean_title_long [of t] by simp
  then show "clean_title t = take 297 t @ ''...''" .
  from eq h show "length (clean_title t) = 300" by simp
  from eq h show "endswith (clean_title t) ''...''" by (simp add: endswith_def)
next
  assume h: "length a = 2100 \<and> collapse a = a \<and> \<not> startswith a ''Abstract:''
      \<and> \<not> startswith a ''ABSTRACT:'' \<and> \<not> startswith a ''Summary:''"
  then have eq: "clean_abstract a = take 1997 a @ ''...''"
    using clean_abstract_long [of a] by simp
  then show "clean_abstract a = take 1997 a @ ''...''" .
  from eq h show "length (clean_abstract a) = 2000" by simp
  from eq h show "endswith (clean_abstract a) ''...''" by (simp add: endswith_def)
next
  show "clean_title (''Title: '' @ u)
       = limit_length 300 (foldl remove_prefix (collapse u) [''TITLE:'', ''Paper:''])"
    by (rule clean_title_Title)
next
  assume "length (PaperMetadata.abstract p) < 20 \<and> is_news_source (PaperMetadata.source p)
      \<and> 10 \<le> length (clean_title (PaperMetadata.title p))
      \<and> normalize_authors (PaperMetadata.authors p) \<noteq> []"
  then show "\<exists>r. normalize_single_paper p = Some r
         \<and> abstract r = Some (synthesize_abstract (clean_title (PaperMetadata.title p)) 20)"
    using normalize_short_news [of p] by blast
next
  assume "length (PaperMetadata.abstract q) < 20 \<and> \<not> is_news_source (PaperMetadata.source q)"
  then show "normalize_single_paper q = None"
    using normalize_short_other [of q] by simp
qed

lemma collapse_simple: "collapse ''SpaceX launches new rocket'' = ''SpaceX launches new rocket''"
  by (simp add: collapse_eq split_ws_def isspace_def)

lemma clean_title_news: "clean_title ''SpaceX launches new rocket'' = ''SpaceX launches new rocket''"
  by (simp add: clean_title_def collapse_simple remove_prefix_def startswith_def limit_length_def)

lemma authors_news: "normalize_authors [''Reporter''] = [''Reporter'']"
  by (simp add: normalize_authors_def normalize_author_def strip_def isspace_def
      remove_prefix_def startswith_def limit_length_def)

theorem normalizer_rules_witness:
  "length (clean_title (replicate 350 CHR ''A'')) = 300
   \<and> endswith (clean_title (replicate 350 CHR ''A'')) ''...''
   \<and> length (clean_abstract (replicate 2100 CHR ''b'')) = 2000
   \<and> endswith (clean_abstract (replicate 2100 CHR ''b'')) ''...''
   \<and> clean_title ''Title: Machine Learning Paper'' = ''Machine Learning Paper''
   \<and> map_option abstract (normalize_single_paper news_item)
       = Some (Some ''News: SpaceX launches new rocket'')
   \<and> normalize_single_paper arxiv_item = None"
proof -
  have ns: "collapse (replicate 350 CHR ''A'') = replicate 350 CHR ''A''"
    "collapse (replicate 2100 CHR ''b'') = replicate 2100 CHR ''b''"
    by (rule collapse_nospace, simp add: isspace_def)+
  have pre: "\<not> startswith (replicate 350 CHR ''A'') ''Title:''"
    "\<not> startswith (replicate 350 CHR ''A'') ''TITLE:''"
    "\<not> startswith (replicate 350 CHR ''A'') ''Paper:''"
    "\<not> startswith (replicate 2100 CHR ''b'') ''Abstract:''"
    "\<not> startswith (replicate 2100 CHR ''b'') ''ABSTRACT:''"
    "\<not> startswith (replicate 2100 CHR ''b'') ''Summary:''"
    by (simp_all add: startswith_def take_Suc_conv_app_nth eval_nat_numeral)
  have a: "length (clean_title (replicate 350 CHR ''A'')) = 300
      \<and> endswith (clean_title (replicate 350 CHR ''A'')) ''...''"
    using normalizer_rules [of "replicate 350 CHR ''A''"] ns pre by (simp add: endswith_def)
  have b: "length (clean_abstract (replicate 2100 CHR ''b'')) = 2000
      \<and> endswith (clean_abstract (replicate 2100 CHR ''b'')) ''...''"
    using normalizer_rules [of _ "replicate 2100 CHR ''b''"] ns pre by (simp add: endswith_def)
  have cm: "collapse ''Machine Learning Paper'' = ''Machine Learning Paper''"
    by (simp add: collapse_eq split_ws_def isspace_def)
  have c: "clean_title ''Title: Machine Learning Paper'' = ''Machine Learning Paper''"
    using normalizer_rules [of _ _ "''Machine Learning Paper''"]
    by (simp add: cm remove_prefix_def startswith_def limit_length_def)
  have d: "map_option abstract (normalize_single_paper news_item)
       = Some (Some ''News: SpaceX launches new rocket'')"
    using normalizer_rules [of _ _ _ news_item]
    by (auto simp: news_item_def is_news_source_def clean_title_news authors_news
        synthesize_abstract_def)
  have e: "normalize_single_paper arxiv_item = None"
    using normalizer_rules [of _ _ _ _ arxiv_item]
    by (simp add: news_item_def arxiv_item_def is_news_source_def)
  from a b c d e show ?thesis by blast
qed

text \<open>
  The claim as the specification words it fails: whitespace is collapsed before the length
  limit applies, so a 350-character title can be cleaned to far fewer than 300 characters.
\<close>

theorem normalizer_title_350_counterexample:
  "length spaced_title = 350 \<and> clean_title spaced_title = ''Deep Learning''
   \<and> length (clean_title spaced_title) \<noteq> 300"
  using spaced_title_clean by simp

section \<open>Content filter rules\<close>

lemma startswith_iff: "startswith s p \<longleftrightarrow> (\<exists>b. s = p @ b)"
proof
  assume "startswith s p"
  then have "s = p @ drop (length p) s"
    by (metis append_take_drop_id startswith_def)
  then show "\<exists>b. s = p @ b" ..
next
  assume "\<exists>b. s = p @ b"
  then show "startswith s p" by (auto simp: startswith_def)
qed

lemma contains_iff: "contains s sub \<longleftrightarrow> (\<exists>a b. s = a @ sub @ b)"
proof (induction s)
  case Nil
  then show ?case by auto
next
  case (Cons c cs)
  show ?case
  proof
    assume "contains (c # cs) sub"
    then consider "startswith (c # cs) sub" | "contains cs sub" by auto
    then show "\<exists>a b. c # cs = a @ sub @ b"
    proof cases
      case 1
      then obtain b where "c # cs = sub @ b" by (auto simp: startswith_iff)
      then have "c # cs = [] @ sub @ b" by simp
      then show ?thesis by blast
    next
      case 2
      with Cons obtain a b where "cs = a @ sub @ b" by blast
      then have "c # cs = (c # a) @ sub @ b" by simp
      then show ?thesis by blast
    qed
  next
    assume "\<exists>a b. c # cs = a @ sub @ b"
    then obtain a b where ab: "c # cs = a @ sub @ b" by blast
    show "contains (c # cs) sub"
    proof (cases a)
      case Nil
      with ab have "startswith (c # cs) sub" by (auto simp: startswith_iff)
      then show ?thesis by simp
    next
      case (Cons x xs)
      with ab have "cs = xs @ sub @ b" by simp
      with Cons.IH have "contains cs sub" by blast
      then show ?thesis by simp
    qed
  qed
qed

lemma contains_append1: "contains x sub \<Longrightarrow> contains (x @ y) sub"
  by (auto simp: contains_iff) (metis append.assoc)

lemma contains_append2: "contains y sub \<Longrightarrow> contains (x @ y) sub"
  by (auto simp: contains_iff) (metis append.assoc)

lemma contains_lower: "contains s sub \<Longrightarrow> lower sub = sub \<Longrightarrow> contains (lower s) sub"
proof -
  assume "contains s sub" and l: "lower sub = sub"
  then obtain a b where "s = a @ sub @ b" by (auto simp: contains_iff)
  then have "lower s = lower a @ lower sub @ lower b" by (simp add: lower_def)
  with l show ?thesis by (auto simp: contains_iff)
qed

lemma paper_text_title:
  "contains (title p) sub \<Longrightarrow> lower sub = sub \<Longrightarrow> contains (paper_text p) sub"
  unfolding paper_text_def by (rule contains_lower) (rule contains_append1)

lemma paper_text_abstract:
  "abstract p = Some a \<Longrightarrow> contains a sub \<Longrightarrow> lower sub = sub \<Longrightarrow> contains (paper_text p) sub"
  unfolding paper_text_def
  by (rule contains_lower) (simp_all add: contains_append2)

lemma lower_click: "lower ''click here'' = ''click here''" "lower ''special offer'' = ''special offer''"
  by (simp_all add: lower_def lower_char_def isupper_def)

lemma spam_if_text:
  "contains (paper_text p) ''click here'' \<or> contains (paper_text p) ''special offer'' \<Longrightarrow> is_spam p"
  by (auto simp: is_spam_def spam_patterns_def re_search_literals_def)


text \<open>
  Claim C6. A title of fewer than 10 characters fails the quality check whatever the other
  fields are. A paper with \<open>click here\<close> or \<open>special offer\<close> in its title or abstract is
  spam. A paper whose lower-cased title and abstract contain a configured exclude keyword
  fails the keyword filter, whatever the include keywords are. With no include keywords
  configured, a paper containing no exclude keyword passes the keyword filter.
\<close>

theorem content_filter_rules:
  "(length (title p) < 10 \<longrightarrow> \<not> passes_quality_check cfg p)
   \<and> (contains (title p) ''click here'' \<or> contains (title p) ''special offer''
        \<or> (\<exists>a. abstract p = Some a
              \<and> (contains a ''click here'' \<or> contains a ''special offer'')) \<longrightarrow>
      is_spam p)
   \<and> (list_ex (contains (paper_text p)) (exclude_keywords cfg) \<longrightarrow>
      \<not> passes_keyword_filter cfg p)
   \<and> (include_keywords cfg = [] \<and> \<not> list_ex (contains (paper_text p)) (exclude_keywords cfg) \<longrightarrow>
      passes_keyword_filter cfg p)"
proof (intro conjI impI)
  assume "length (title p) < 10"
  then show "\<not> passes_quality_check cfg p" by (simp add: passes_quality_check_def)
next
  assume "contains (title p) ''click here'' \<or> contains (title p) ''special offer''
        \<or> (\<exists>a. abstract p = Some a
              \<and> (contains a ''click here'' \<or> contains a ''special offer''))"
  then have "contains (paper_text p) ''click here'' \<or> contains (paper_text p) ''special offer''"
    using paper_text_title [of p] paper_text_abstract [of p] lower_click by blast
  then show "is_spam p" by (rule spam_if_text)
next
  assume "list_ex (contains (paper_text p)) (exclude_keywords cfg)"
  then show "\<not> passes_keyword_filter cfg p" by (simp add: passes_keyword_filter_def)
next
  assume "include_keywords cfg = [] \<and> \<not> list_ex (contains (paper_text p)) (exclude_keywords cfg)"
  then show "passes_keyword_filter cfg p" by (simp add: passes_keyword_filter_def)
qed

lemma c6_facts:
  "length (title short_title_paper) < 10"
  "contains (title spam_paper) ''click here''"
  "list_ex (contains (paper_text survey_paper)) (exclude_keywords default_config)"
  "list_ex (contains (paper_text survey_paper)) (include_keywords default_config)"
  "include_keywords no_include_config = []"
  "\<not> list_ex (contains (paper_text quantum_paper)) (exclude_keywords no_include_config)"
  by code_simp+

theorem content_filter_rules_witness:
  "\<not> passes_quality_check default_config short_title_paper
   \<and> is_spam spam_paper
   \<and> list_ex (contains (paper_text survey_paper)) (include_keywords default_config)
   \<and> \<not> passes_keyword_filter default_config survey_paper
   \<and> passes_keyword_filter no_include_config quantum_paper"
  using content_filter_rules [of short_title_paper default_config]
    content_filter_rules [of spam_paper default_config]
    content_filter_rules [of survey_paper default_config]
    content_filter_rules [of quantum_paper no_include_config]
    c6_facts
  by blast

section \<open>The news quota pass\<close>

lemma collect_extra_shape:
  "\<exists>k. collect_extra n c t e items
       = e @ filter (\<lambda>ps. fst ps \<notin> set c \<and> fst ps \<notin> set t) (take k items)"
proof (induction items arbitrary: e)
  case Nil
  then show ?case by simp
next
  case (Cons ps rest)
  let ?Q = "\<lambda>ps. fst ps \<notin> set c \<and> fst ps \<notin> set t"
  let ?e' = "if ?Q ps then e @ [ps] else e"
  show ?case
  proof (cases "int (length ?e') \<ge> n")
    case True
    then have "collect_extra n c t e (ps # rest) = e @ filter ?Q (take 1 (ps # rest))"
      by (simp add: Let_def)
    then show ?thesis by blast
  next
    case False
    from Cons [of ?e'] obtain k where
      "collect_extra n c t ?e' rest = ?e' @ filter ?Q (take k rest)" by blast
    with False have "collect_extra n c t e (ps # rest) = e @ filter ?Q (take (Suc k) (ps # rest))"
      by (simp add: Let_def)
    then show ?thesis by blast
  qed
qed

lemma sorted_key_filter_take:
  "sorted (map f xs) \<Longrightarrow> sorted (map f (filter Q (take k (filter N xs))))"
  by (simp add: sorted_map sorted_wrt_filter sorted_wrt_take)

lemma sorted_take_then_rest:
  assumes "sorted (map f xs)" and "x \<in> set (take m xs)" and "y \<in> set xs" and "y \<notin> set (take m xs)"
  shows "f x \<le> f y"
proof -
  have "set xs = set (take m xs) \<union> set (drop m xs)"
    using set_append [of "take m xs" "drop m xs"] by simp
  with assms(3,4) have y: "y \<in> set (drop m xs)" by blast
  have "map f xs = map f (take m xs) @ map f (drop m xs)"
    using map_append [of f "take m xs" "drop m xs"] by simp
  with assms(1) have "sorted (map f (take m xs) @ map f (drop m xs))" by simp
  then have "\<forall>a\<in>set (map f (take m xs)). \<forall>b\<in>set (map f (drop m xs)). a \<le> b"
    by (simp add: sorted_append)
  with assms(2) y show ?thesis by auto
qed

lemma select_top_prefix:
  assumes srt: "sorted (map (\<lambda>x. - snd x) ranked)" and n: "0 \<le> n"
  shows "select_top n q ranked = py_take n ranked"
proof -
  define top where "top = take (nat n) ranked"
  define news where "news = filter (\<lambda>ps. is_news_source (source (fst ps))) ranked"
  define cur where "cur = filter (\<lambda>p. is_news_source (source p)) (map fst top)"
  define extra where "extra = collect_extra (q - int (length cur)) cur (map fst top) [] news"
  from n have py: "py_take n ranked = top" by (simp add: py_take_def top_def)
  obtain k where k: "extra = filter (\<lambda>ps. fst ps \<notin> set cur \<and> fst ps \<notin> set (map fst top)) (take k news)"
    unfolding extra_def
    using collect_extra_shape [of "q - int (length cur)" cur "map fst top" "[]" news]
    by auto
  have ex_in: "y \<in> set ranked \<and> y \<notin> set top" if "y \<in> set extra" for y
  proof -
    from that have t: "y \<in> set (take k news)" and f: "fst y \<notin> set (map fst top)"
      unfolding k by simp_all
    from t have "y \<in> set news" by (rule in_set_takeD)
    then have "y \<in> set ranked" unfolding news_def by simp
    moreover from f have "y \<notin> set top" by auto
    ultimately show ?thesis by simp
  qed
  have s1: "sorted (map (\<lambda>x. - snd x) top)"
    unfolding top_def using srt by (simp add: sorted_map sorted_wrt_take)
  have s2: "sorted (map (\<lambda>x. - snd x) extra)"
    unfolding k news_def using srt by (rule sorted_key_filter_take)
  have s3: "- snd x \<le> - snd y" if "x \<in> set top" "y \<in> set extra" for x y
  proof -
    from that(2) have "y \<in> set ranked" "y \<notin> set (take (nat n) ranked)"
      using ex_in [of y] unfolding top_def by simp_all
    with srt that(1) show ?thesis
      unfolding top_def by (rule sorted_take_then_rest)
  qed
  from s1 s2 s3 have sorted_all: "sorted (map (\<lambda>x. - snd x) (top @ extra))"
    by (auto simp: sorted_append)
  have retrim: "take (nat n) (top @ extra) = top" if "extra \<noteq> []"
  proof -
    from that obtain y where "y \<in> set extra" by (cases extra) auto
    then have y: "y \<in> set ranked" "y \<notin> set top" using ex_in by auto
    have "nat n < length ranked"
    proof (rule ccontr)
      assume "\<not> nat n < length ranked"
      then have "top = ranked" by (simp add: top_def)
      with y show False by simp
    qed
    then have "length top = nat n" by (simp add: top_def)
    then show ?thesis by simp
  qed
  have "sort_by_score (top @ extra) = top @ extra"
    unfolding sort_by_score_def using sorted_all by (rule sort_key_id_if_sorted)
  with retrim n have resel: "py_take n (sort_by_score (top @ extra)) = top" if "extra \<noteq> []"
    using that by (simp add: py_take_def)
  have "select_top n q ranked
      = (if int (length cur) < q \<and> news \<noteq> []
         then (if extra \<noteq> [] then py_take n (sort_by_score (top @ extra)) else top)
         else top)"
    unfolding select_top_def Let_def py extra_def cur_def news_def ..
  also have "\<dots> = top" using resel by simp
  finally show ?thesis by (simp only: py)
qed

lemma process_papers_is_top:
  assumes "0 \<le> max_papers cfg"
  shows "process_papers cfg now papers
     = map fst (py_take (max_papers cfg) (rank_papers cfg now (filter_papers cfg now papers)))"
proof -
  have "sorted (map (\<lambda>x. - snd x) (rank_papers cfg now (filter_papers cfg now papers)))"
    by (simp add: rank_papers_def sort_by_score_def)
  then have "select_top (max_papers cfg) (min_news_quota cfg)
      (rank_papers cfg now (filter_papers cfg now papers))
      = py_take (max_papers cfg) (rank_papers cfg now (filter_papers cfg now papers))"
    using assms by (rule select_top_prefix)
  then show ?thesis
    by (simp add: process_papers_def Let_def rank_papers_def sort_by_score_def py_take_def)
qed

lemma pool_scores:
  "map (calculate_relevance_score quota_config clock_2024) quota_pool
     = [475 / 1000, 56 / 100, 475 / 1000, 56 / 100]"
  by code_simp

lemma pool_ranked:
  "rank_papers quota_config clock_2024 quota_pool
     = [(arxiv_one, 56 / 100), (arxiv_two, 56 / 100), (news_one, 475 / 1000), (news_two, 475 / 1000)]"
  using pool_scores by (simp add: rank_papers_def sort_by_score_def quota_pool_def)

lemma pool_sources:
  "\<not> is_news_source (source arxiv_one)" "\<not> is_news_source (source arxiv_two)"
  "is_news_source (source news_one)" "is_news_source (source news_two)"
  by (simp_all add: is_news_source_def arxiv_one_def arxiv_two_def news_one_def news_two_def)

lemma pool_distinct:
  "news_one \<noteq> arxiv_one" "news_one \<noteq> arxiv_two" "news_two \<noteq> arxiv_one" "news_two \<noteq> arxiv_two"
  using pool_sources by auto

lemma pool_selected:
  "select_top 2 2 [(arxiv_one, 56 / 100), (arxiv_two, 56 / 100), (news_one, 475 / 1000), (news_two, 475 / 1000)]
     = [(arxiv_one, 56 / 100), (arxiv_two, 56 / 100)]"
  by (simp add: select_top_def py_take_def pool_sources pool_distinct sort_by_score_def Let_def)

lemma pool_filtered: "filter_papers quota_config clock_2024 quota_pool = quota_pool"
  by code_simp

lemma pool_config: "max_papers quota_config = 2" "min_news_quota quota_config = 2"
  by (simp_all add: max_papers_def min_news_quota_def quota_config_def dict_get_def)

text \<open>
  Claim C2 does not hold of the code. In the pool below the two best-ranked papers are from
  arXiv, so the top 2 hold no news item, while the pool holds two (the quota). The quota pass
  gathers both news items, sorts them together with the top 2 by score and cuts the list to
  2 again: the selection is the two arXiv papers, with no news item in it.
\<close>

theorem quota_pass_failing_input:
  "max_papers quota_config = 2 \<and> min_news_quota quota_config = 2
   \<and> news_count (filter_papers quota_config clock_2024 quota_pool) = 2
   \<and> news_count (map fst (py_take (max_papers quota_config)
         (rank_papers quota_config clock_2024
            (filter_papers quota_config clock_2024 quota_pool)))) = 0
   \<and> process_papers quota_config clock_2024 quota_pool = [arxiv_one, arxiv_two]
   \<and> news_count (process_papers quota_config clock_2024 quota_pool) = 0"
proof -
  have n: "news_count quota_pool = 2" "news_count [arxiv_one, arxiv_two] = 0"
    by (simp_all add: news_count_def quota_pool_def pool_sources)
  have t: "py_take 2 (rank_papers quota_config clock_2024 quota_pool)
      = [(arxiv_one, 56 / 100), (arxiv_two, 56 / 100)]"
    unfolding pool_ranked by (simp add: py_take_def)
  have p: "process_papers quota_config clock_2024 quota_pool = [arxiv_one, arxiv_two]"
  proof -
    have ne: "quota_pool \<noteq> []" by (simp add: quota_pool_def)
    show ?thesis
      unfolding process_papers_def Let_def pool_filtered pool_config pool_ranked pool_selected
      using ne by simp
  qed
  from n t p show ?thesis by (simp add: pool_filtered pool_config)
qed

section \<open>Keyword lists of the configuration\<close>

lemma strip_ends:
  "strip s = [] \<or> (\<not> isspace (hd (strip s)) \<and> \<not> isspace (last (strip s)))"
proof -
  let ?u = "dropWhile isspace s"
  let ?v = "dropWhile isspace (rev ?u)"
  have sv: "strip s = rev ?v" by (simp add: strip_def)
  show ?thesis
  proof (cases "?v = []")
    case True
    with sv show ?thesis by simp
  next
    case False
    then have hv: "\<not> isspace (hd ?v)" by (rule hd_dropWhile)
    have u: "?u \<noteq> []"
    proof
      assume e: "?u = []"
      have "?v = []" unfolding e by simp
      with False show False ..
    qed
    then have hu: "\<not> isspace (hd ?u)" by (rule hd_dropWhile)
    have "rev ?u = takeWhile isspace (rev ?u) @ ?v" by simp
    with False have "last (rev ?u) = last ?v" by (metis last_appendR)
    with u have "last ?v = hd ?u" by (simp add: last_rev)
    with hu False have "\<not> isspace (hd (rev ?v))" by (simp add: hd_rev)
    moreover from hv False have "\<not> isspace (last (rev ?v))" by (simp add: last_rev)
    ultimately show ?thesis using sv by simp
  qed
qed

lemma strip_strip: "strip (strip s) = strip s"
  using strip_ends [of s] by (rule strip_id)

lemma join_Cons_Cons: "join sep ((c # a) # l) = c # join sep (a # l)"
  by (cases l) simp_all

lemma split_on_nonempty: "split_on d s \<noteq> []"
  by (induction s) (auto split: list.splits)

lemma join_split_on: "join [d] (split_on d s) = s"
proof (induction s)
  case Nil
  then show ?case by simp
next
  case (Cons c cs)
  then show ?case
    using split_on_nonempty [of d cs]
    by (cases "split_on d cs") (auto simp: join_Cons_Cons split: list.splits)
qed

lemma split_on_no_sep: "w \<in> set (split_on d s) \<Longrightarrow> d \<notin> set w"
  by (induction s arbitrary: w) (auto split: if_splits list.splits)

lemma set_strip_subset: "set (strip s) \<subseteq> set s"
proof -
  have "set (dropWhile isspace (rev (dropWhile isspace s))) \<subseteq> set (rev (dropWhile isspace s))"
    by (rule set_dropWhileD [THEN subsetI]) 
  also have "\<dots> \<subseteq> set s" by (auto dest: set_dropWhileD)
  finally show ?thesis by (simp add: strip_def)
qed


lemma get_list_eq:
  "get_list env = map strip (filter (\<lambda>item. strip item \<noteq> []) (split_on CHR '','' (dict_get env [])))"
  by (simp add: get_list_def Let_def strip_def)

text \<open>
  Claim C8, as amended. \<open>get_keywords_include()\<close> and \<open>get_keywords_exclude()\<close> split the
  comma-separated setting (joining the pieces with commas gives the setting back), drop the
  pieces that are blank, and trim the others: every token returned is non-empty, has no
  whitespace at either end and holds no comma. The case of the letters is kept.
\<close>

theorem get_keywords_spec:
  "get_keywords_include env
     = map strip (filter (\<lambda>item. strip item \<noteq> []) (split_on CHR '','' (dict_get env [])))
   \<and> get_keywords_exclude env = get_keywords_include env
   \<and> join '','' (split_on CHR '','' (dict_get env [])) = dict_get env []
   \<and> (\<forall>t\<in>set (get_keywords_include env). t \<noteq> [] \<and> strip t = t \<and> CHR '','' \<notin> set t)"
proof (intro conjI ballI)
  show "get_keywords_include env
     = map strip (filter (\<lambda>item. strip item \<noteq> []) (split_on CHR '','' (dict_get env [])))"
    by (simp add: get_keywords_include_def get_list_eq)
  show "get_keywords_exclude env = get_keywords_include env"
    by (simp add: get_keywords_include_def get_keywords_exclude_def)
  show "join '','' (split_on CHR '','' (dict_get env [])) = dict_get env []"
    by (rule join_split_on)
next
  fix t assume "t \<in> set (get_keywords_include env)"
  then obtain w where w: "w \<in> set (split_on CHR '','' (dict_get env []))" "strip w \<noteq> []"
      "t = strip w"
    by (auto simp: get_keywords_include_def get_list_eq)
  from w show "t \<noteq> []" by simp
  from w show "strip t = t" by (simp add: strip_strip)
  from w(1) have "CHR '','' \<notin> set w" by (rule split_on_no_sep)
  with w(3) set_strip_subset [of w] show "CHR '','' \<notin> set t" by auto
qed

theorem get_keywords_spec_witness:
  "get_keywords_include (Some '' LLM, diffusion ,,machine learning '')
     = [''LLM'', ''diffusion'', ''machine learning'']
   \<and> get_keywords_exclude (Some '' LLM, diffusion ,,machine learning '')
     = [''LLM'', ''diffusion'', ''machine learning'']
   \<and> strip ''machine learning'' = ''machine learning''"
proof -
  let ?e = "Some '' LLM, diffusion ,,machine learning ''"
  have v: "map strip (filter (\<lambda>item. strip item \<noteq> []) (split_on CHR '','' (dict_get ?e [])))
      = [''LLM'', ''diffusion'', ''machine learning'']"
    by code_simp
  from get_keywords_spec [of ?e] v
  have a: "get_keywords_include ?e = [''LLM'', ''diffusion'', ''machine learning'']"
    and b: "get_keywords_exclude ?e = get_keywords_include ?e"
    and c: "\<forall>t\<in>set (get_keywords_include ?e). t \<noteq> [] \<and> strip t = t \<and> CHR '','' \<notin> set t"
    by simp_all
  from a c have "strip ''machine learning'' = ''machine learning''" by simp
  with a b show ?thesis by simp
qed

text \<open>
  The claim as the specification words it fails: \<open>Config._get_list\<close> does not lower-case
  (the filter and the ranker lower-case the setting themselves, in \<open>_parse_keywords\<close>).
\<close>

theorem get_keywords_case_counterexample:
  "get_keywords_include (Some ''LLM,AI'') = [''LLM'', ''AI'']
   \<and> lower ''AI'' = ''ai'' \<and> ''AI'' \<noteq> lower ''AI''"
  by code_simp

section \<open>Ranking scores\<close>

lemma day_us_pos: "0 < day_us"
  by (simp add: day_us_def)

lemma time_of_day_bounds:
  assumes "valid_datetime d"
  shows "toordinal d * day_us \<le> to_us d" and "to_us d < (toordinal d + 1) * day_us"
proof -
  from assms have h: "hour d \<le> 23" "minute d \<le> 59" "second d \<le> 59" "microsecond d \<le> 999999"
    by (auto simp: valid_datetime_def)
  let ?t = "((int (hour d) * 60 + int (minute d)) * 60 + int (second d)) * 1000000
     + int (microsecond d)"
  have "0 \<le> ?t" by simp
  then show "toordinal d * day_us \<le> to_us d" by (simp add: to_us_def)
  from h have "int (hour d) \<le> 23" "int (minute d) \<le> 59" "int (second d) \<le> 59"
    "int (microsecond d) \<le> 999999" by simp_all
  then have "(int (hour d) * 60 + int (minute d)) * 60 + int (second d) \<le> 86399"
    by arith
  then have "((int (hour d) * 60 + int (minute d)) * 60 + int (second d)) * 1000000
      \<le> 86399 * 1000000" by simp
  with \<open>int (microsecond d) \<le> 999999\<close> have "?t < 86400 * 1000000" by arith
  then show "to_us d < (toordinal d + 1) * day_us"
    by (simp add: to_us_def day_us_def algebra_simps)
qed

lemma ordinal_2020:
  assumes "valid_datetime d" and "year d = 2020"
  shows "toordinal d \<le> 737790"
proof -
  from assms have "1 \<le> month d \<and> month d \<le> 12" by (simp add: valid_datetime_def)
  then have m: "month d = 1 \<or> month d = 2 \<or> month d = 3 \<or> month d = 4 \<or> month d = 5
     \<or> month d = 6 \<or> month d = 7 \<or> month d = 8 \<or> month d = 9 \<or> month d = 10
     \<or> month d = 11 \<or> month d = 12" by arith
  have y: "days_before_year 2020 = 737424" by (simp add: days_before_year_def)
  have l: "is_leap 2020" by (simp add: is_leap_def)
  from assms have dd: "day d \<le> days_in_month 2020 (month d)"
    by (simp add: valid_datetime_def)
  from m dd have "days_before_month 2020 (month d) + int (day d) \<le> 366"
    by (elim disjE) (simp_all add: days_before_month_def days_in_month_def l)
  with y assms show ?thesis by (simp add: toordinal_def)
qed

lemma to_us_jan_3: "to_us jan_3_2021 = 737793 * day_us"
  by (simp add: jan_3_2021_def to_us_def toordinal_def days_before_year_def
      days_before_month_def is_leap_def)

lemma days_old_2020:
  assumes "valid_datetime d" and "year d = 2020" and "to_us jan_3_2021 \<le> to_us now"
  shows "2 \<le> timedelta_days now d"
proof -
  have "to_us d < (toordinal d + 1) * day_us" using assms(1) by (rule time_of_day_bounds)
  also have "\<dots> \<le> 737791 * day_us"
    using ordinal_2020 [OF assms(1,2)] day_us_pos by simp
  finally have "2 * day_us \<le> to_us now - to_us d"
    using assms(3) by (simp add: to_us_jan_3)
  then have "(2 * day_us) div day_us \<le> (to_us now - to_us d) div day_us"
    by (rule zdiv_mono1) (rule day_us_pos)
  then show ?thesis using day_us_pos by (simp add: timedelta_days_def)
qed

lemma days_old_recent:
  assumes "to_us now - to_us d \<le> day_us"
  shows "timedelta_days now d \<le> 1"
proof -
  have "(to_us now - to_us d) div day_us \<le> day_us div day_us"
    using assms by (rule zdiv_mono1) (rule day_us_pos)
  then show ?thesis using day_us_pos by (simp add: timedelta_days_def)
qed

lemma relevance_bounds:
  "0 \<le> calculate_relevance_score cfg now p \<and> calculate_relevance_score cfg now p \<le> 1"
  by (simp add: calculate_relevance_score_def Let_def)


lemma source_score_arxiv: "source_score ''arxiv'' = 8 / 10"
  by (simp add: source_score_def source_weights_def dict_get_def lower_def lower_char_def
      isupper_def)

text \<open>
  Claim C7. With the clock at 3 January 2021 or later, a paper published within the last
  day (at most one day before the clock reading) has a strictly higher recency score than a
  paper published in 2020; the recency score reads nothing but the date, so the other fields
  do not matter. The source \<open>arxiv\<close> has a higher source score than any source that is not
  in the weight table. The relevance score of every paper lies between 0 and 1.
\<close>

theorem ranker_properties:
  "(valid_datetime d_old \<and> year d_old = 2020 \<and> to_us jan_3_2021 \<le> to_us now
      \<and> 0 \<le> to_us now - to_us d_new \<and> to_us now - to_us d_new \<le> day_us \<longrightarrow>
      recency_score now (Some d_old) < recency_score now (Some d_new))
   \<and> (map_of source_weights (lower s) = None \<longrightarrow> source_score s < source_score ''arxiv'')
   \<and> 0 \<le> calculate_relevance_score cfg now p
   \<and> calculate_relevance_score cfg now p \<le> 1"
proof (intro conjI impI)
  assume h: "valid_datetime d_old \<and> year d_old = 2020 \<and> to_us jan_3_2021 \<le> to_us now
      \<and> 0 \<le> to_us now - to_us d_new \<and> to_us now - to_us d_new \<le> day_us"
  then have "2 \<le> timedelta_days now d_old" using days_old_2020 [of d_old now] by simp
  then have old: "recency_score now (Some d_old) \<le> 8 / 10"
    by (simp add: recency_score_def Let_def)
  from h have "timedelta_days now d_new \<le> 1" using days_old_recent [of now d_new] by simp
  then have "recency_score now (Some d_new) = 1" by (simp add: recency_score_def Let_def)
  with old show "recency_score now (Some d_old) < recency_score now (Some d_new)" by simp
next
  assume "map_of source_weights (lower s) = None"
  then show "source_score s < source_score ''arxiv''"
    by (simp add: source_score_arxiv) (simp add: source_score_def dict_get_def)
next
  show "0 \<le> calculate_relevance_score cfg now p" using relevance_bounds by simp
  show "calculate_relevance_score cfg now p \<le> 1" using relevance_bounds by simp
qed

lemma to_us_values:
  "to_us clock_2024 = 739052 * day_us + 43200000000" "to_us date_recent = 739052 * day_us"
  by (simp_all add: clock_2024_def date_recent_def to_us_def toordinal_def days_before_year_def
      days_before_month_def is_leap_def)

lemma c7_facts:
  "valid_datetime date_2020" "year date_2020 = 2020" "to_us jan_3_2021 \<le> to_us clock_2024"
  "0 \<le> to_us clock_2024 - to_us date_recent" "to_us clock_2024 - to_us date_recent \<le> day_us"
  "map_of source_weights (lower ''TechBlog'') = None"
proof -
  show "valid_datetime date_2020"
    by (simp add: valid_datetime_def date_2020_def days_in_month_def)
  show "year date_2020 = 2020" by (simp add: date_2020_def)
  show "to_us jan_3_2021 \<le> to_us clock_2024"
    using day_us_pos by (simp add: to_us_jan_3 to_us_values)
  show "0 \<le> to_us clock_2024 - to_us date_recent" by (simp add: to_us_values)
  show "to_us clock_2024 - to_us date_recent \<le> day_us" by (simp add: to_us_values day_us_def)
  show "map_of source_weights (lower ''TechBlog'') = None"
    by (simp add: source_weights_def lower_def lower_char_def isupper_def)
qed

theorem ranker_properties_witness:
  "recency_score clock_2024 (Some date_2020) < recency_score clock_2024 (Some date_recent)
   \<and> source_score ''TechBlog'' < source_score ''arxiv''
   \<and> 0 \<le> calculate_relevance_score default_config clock_2024 survey_paper
   \<and> calculate_relevance_score default_config clock_2024 survey_paper \<le> 1"
  using ranker_properties [of date_2020 clock_2024 date_recent "''TechBlog''" default_config
      survey_paper] c7_facts
  by blast

section \<open>Short news items across normalizer and quality check\<close>

lemma length_synthesize_abstract:
  "t \<noteq> [] \<Longrightarrow> length (synthesize_abstract t 20) = (if 14 \<le> length t then length t + 6 else min 25 (2 * length t + 3))"
  by (auto simp: synthesize_abstract_def Let_def)

text \<open>
  Claim C10, as amended. The normalizer accepts a \<open>tech_news\<close> or \<open>nasa\<close> item whose
  abstract has fewer than 20 characters (given a cleaned title of at least 10 characters and a
  surviving author) with a synthesized abstract, and the quality check, which asks
  \<open>SUMMARY_MIN_LENGTH\<close> characters of every source, then rejects it, whenever the cleaned
  title is shorter than \<open>SUMMARY_MIN_LENGTH - 6\<close> and either \<open>SUMMARY_MIN_LENGTH\<close> is at
  least 26 (the default is 150) or the title has at least 14 characters.
\<close>

theorem synthesized_news_rejected:
  "(26 \<le> min_abstract_length cfg \<or> 14 \<le> length (clean_title (PaperMetadata.title p)))
   \<and> is_news_source (PaperMetadata.source p)
   \<and> length (PaperMetadata.abstract p) < 20
   \<and> 10 \<le> length (clean_title (PaperMetadata.title p))
   \<and> int (length (clean_title (PaperMetadata.title p))) < min_abstract_length cfg - 6
   \<and> normalize_authors (PaperMetadata.authors p) \<noteq> [] \<longrightarrow>
   (\<exists>r a. normalize_single_paper p = Some r \<and> abstract r = Some a
      \<and> int (length a) < min_abstract_length cfg
      \<and> \<not> passes_quality_check cfg r)"
proof
  let ?t = "clean_title (PaperMetadata.title p)"
  assume h: "(26 \<le> min_abstract_length cfg \<or> 14 \<le> length ?t)
   \<and> is_news_source (PaperMetadata.source p)
   \<and> length (PaperMetadata.abstract p) < 20
   \<and> 10 \<le> length ?t
   \<and> int (length ?t) < min_abstract_length cfg - 6
   \<and> normalize_authors (PaperMetadata.authors p) \<noteq> []"
  then obtain r where r: "normalize_single_paper p = Some r"
    "abstract r = Some (synthesize_abstract ?t 20)"
    using normalize_short_news [of p] by blast
  from h have "?t \<noteq> []" by auto
  then have "length (synthesize_abstract ?t 20)
      = (if 14 \<le> length ?t then length ?t + 6 else min 25 (2 * length ?t + 3))"
    by (rule length_synthesize_abstract)
  with h have short: "int (length (synthesize_abstract ?t 20)) < min_abstract_length cfg"
    by (auto split: if_splits)
  with r have "\<not> passes_quality_check cfg r"
    by (simp add: passes_quality_check_def)
  with r short show "\<exists>r a. normalize_single_paper p = Some r \<and> abstract r = Some a
      \<and> int (length a) < min_abstract_length cfg \<and> \<not> passes_quality_check cfg r"
    by blast
qed

lemma min_default: "min_abstract_length default_config = 150"
  by (simp add: min_abstract_length_def default_config_def dict_get_def)

theorem synthesized_news_rejected_witness:
  "min_abstract_length default_config = 150
   \<and> map_option abstract (normalize_single_paper news_item)
       = Some (Some ''News: SpaceX launches new rocket'')
   \<and> map_option (passes_quality_check default_config) (normalize_single_paper news_item)
       = Some False"
proof -
  have "\<exists>r a. normalize_single_paper news_item = Some r \<and> abstract r = Some a
      \<and> int (length a) < min_abstract_length default_config
      \<and> \<not> passes_quality_check default_config r"
    using synthesized_news_rejected [of default_config news_item]
    by (simp add: min_default news_item_def is_news_source_def clean_title_news authors_news)
  moreover have "map_option abstract (normalize_single_paper news_item)
       = Some (Some ''News: SpaceX launches new rocket'')"
    using normalize_short_news [of news_item]
    by (auto simp: news_item_def is_news_source_def clean_title_news authors_news
        synthesize_abstract_def)
  ultimately show ?thesis by (auto simp: min_default)
qed

lemma brief_normalized:
  "normalize_single_paper brief_news_item = Some \<lparr> source = ''tech_news'', doi = None,
     arxiv_id = None, title = ''Rocket launch'', authors = [''Reporter''],
     abstract = Some ''Rocket launch - Rocket la'', url = ''http://n'', published_at = None,
     tags = Some [], categories = Some [] \<rparr>"
  by code_simp

text \<open>
  Without that side condition the claim fails: for a title of 10 to 13 characters the
  fallback abstract is the doubled title cut to 25 characters, which a
  \<open>SUMMARY_MIN_LENGTH\<close> of 20 accepts.
\<close>

theorem synthesized_news_accepted_counterexample:
  "is_news_source (PaperMetadata.source brief_news_item)
   \<and> length (PaperMetadata.abstract brief_news_item) < 20
   \<and> int (length (clean_title (PaperMetadata.title brief_news_item)))
       < min_abstract_length short_min_config - 6
   \<and> map_option abstract (normalize_single_paper brief_news_item)
       = Some (Some ''Rocket launch - Rocket la'')
   \<and> map_option (passes_quality_check short_min_config) (normalize_single_paper brief_news_item)
       = Some True"
  by code_simp

end
